theory Spec2Isabelle
  imports Main "HOL-Library.Char_ord" "HOL-Library.List_Lexorder"
begin

section \<open>Template values\<close>

text \<open>
  Modelled from the spec: the type \<open>TemplateVariant\<close> is declared in \<open>template.h\<close>, which
  is not part of the sources at hand. The spec describes it as a tagged union of None, Bool,
  Int, String, List-ref, Struct-ref and Delegate values. The three reference kinds carry an
  opaque handle that stands for the shared pointer. The default constructor
  \<open>TemplateVariant()\<close> builds the None (invalid) value, and the constructor from a C string
  builds a String value.
\<close>

datatype TemplateVariant =
    TV_None
  | TV_Bool bool
  | TV_Int int
  | TV_String string
  | TV_List nat
  | TV_Struct nat
  | TV_Delegate nat

section \<open>PropertyMapper\<close>

text \<open>
  A handler is a const member function \<open>TemplateVariant (T::*)() const\<close>. Handlers fill
  caches behind the object, so the model passes the mutable world \<open>'st\<close> through the
  call: a handler takes the object and the world and returns the value and the new world.
\<close>

type_synonym ('obj, 'st) Handler = "'obj \<Rightarrow> 'st \<Rightarrow> TemplateVariant \<times> 'st"

text \<open>
  \<open>m_map\<close> is a \<open>std::unordered_map\<close> from the property name to the handler: an
  association list whose keys are pairwise different. The order of the list stands for the
  unspecified iteration order of the hash table.
\<close>

type_synonym ('obj, 'st) PropertyMapper = "(string \<times> ('obj, 'st) Handler) list"

text \<open>The text that \<open>err\<close> writes when a property is added twice.\<close>

definition err_duplicate :: "string \<Rightarrow> string" where
  "err_duplicate name = ''adding property '' @ [CHR 0x27] @ name @ [CHR 0x27] @ '' more than once'' @ [CHR 0x0A]"

text \<open>
  \<open>addProperty\<close>: the second component of the state is the error stream that \<open>err\<close>
  appends to.
\<close>

definition PropertyMapper_addProperty ::
  "string \<Rightarrow> ('obj, 'st) Handler \<Rightarrow> ('obj, 'st) PropertyMapper \<times> string list
     \<Rightarrow> ('obj, 'st) PropertyMapper \<times> string list" where
  "PropertyMapper_addProperty name handle s =
     (case s of (m_map, errs) \<Rightarrow>
        (case map_of m_map name of
           Some it \<Rightarrow> (m_map, errs @ [err_duplicate name])
         | None \<Rightarrow> (m_map @ [(name, handle)], errs)))"

definition PropertyMapper_get ::
  "('obj, 'st) PropertyMapper \<Rightarrow> 'obj \<Rightarrow> string \<Rightarrow> 'st \<Rightarrow> TemplateVariant \<times> 'st" where
  "PropertyMapper_get m_map obj name st =
     (case map_of m_map name of
        Some handler \<Rightarrow> handler obj st
      | None \<Rightarrow> (TV_None, st))"

definition PropertyMapper_fields :: "('obj, 'st) PropertyMapper \<Rightarrow> string list" where
  "PropertyMapper_fields m_map = sort (map fst m_map)"

text \<open>
  The table of the scenario: the properties \<open>name\<close> and \<open>isLinkable\<close> of a mock symbol,
  which is its name here; the world counts the calls of the second handler.
\<close>

definition mock_table :: "(string, nat) PropertyMapper" where
  "mock_table =
     [(''name'', \<lambda>obj st. (TV_String obj, st)),
      (''isLinkable'', \<lambda>obj st. (TV_Bool True, Suc st))]"

section \<open>Cached documentation of a symbol\<close>

datatype ContextOutputFormat =
    ContextOutputFormat_Unspecified
  | ContextOutputFormat_Html
  | ContextOutputFormat_Latex
  | ContextOutputFormat_Rtf
  | ContextOutputFormat_ManPage
  | ContextOutputFormat_DocBook
  | ContextOutputFormat_Xml
  | ContextOutputFormat_TagFile

text \<open>
  The part of a \<open>Definition\<close> that the documentation accessors read; \<open>def_name\<close> is
  its \<open>name()\<close>. The symbol graph is built before rendering and does not change while
  templates are rendered.
\<close>

record Definition =
  def_name :: string
  docFile :: string
  docLine :: int
  documentation :: string
  briefFile :: string
  briefLine :: int
  briefDescription :: string
  hasBriefDescription :: bool
  inbodyFile :: string
  inbodyLine :: int
  inbodyDocumentation :: string

text \<open>
  What \<open>MemberContext::paramDocs\<close> reads of the arguments of a member, and what
  \<open>FileContext::sources\<close> reads of a file.
\<close>

record Argument =
  arg_name :: string
  arg_docs :: string
  arg_hasDocumentation :: bool

record ArgumentList =
  arguments :: "Argument list"
  al_hasDocumentation :: bool

record FileDef =
  absFilePath :: string
  generateSourceFile :: bool

text \<open>
  The collaborators that the accessors call and that live outside \<open>context.cpp\<close>: the
  documentation parser \<open>validatingParseDoc\<close> with the syntax tree \<open>'root\<close> it returns,
  the two visitors that print the tree, the configuration option CREATE_SUBDIRS,
  \<open>extractDirection\<close>, which returns the direction and leaves the rest of the text in its
  reference parameter (here the second component), and the code parser of a file run with
  the HTML and with the LaTeX code generator, as a function of the file and the relative
  path that gives the text written to the stream.
\<close>

record 'root Collaborators =
  validatingParseDoc :: "string \<Rightarrow> int \<Rightarrow> Definition \<Rightarrow> string \<Rightarrow> bool \<Rightarrow> 'root"
  isEmpty :: "'root \<Rightarrow> bool"
  HtmlDocVisitor :: "'root \<Rightarrow> string \<Rightarrow> Definition \<Rightarrow> string"
  LatexDocVisitor :: "'root \<Rightarrow> string \<Rightarrow> string \<Rightarrow> Definition \<Rightarrow> string"
  createSubdirs :: bool
  extractDirection :: "string \<Rightarrow> string \<times> string"
  HtmlCodeGenerator :: "FileDef \<Rightarrow> string \<Rightarrow> string"
  LatexCodeGenerator :: "FileDef \<Rightarrow> string \<Rightarrow> string"

text \<open>
  \<open>Cachable\<close>, the cookie of a definition, with its text slots; a
  \<open>std::unique_ptr\<close> that holds nothing is \<open>None\<close>. The first six fields are those of
  \<open>DefinitionContext::Cachable\<close>. The cookies of a page, of a member and of a file derive
  from it and add the slot \<open>example\<close> with its format, the slot \<open>paramDocs\<close> and the
  slot \<open>sources\<close>; the two last slots have no format beside them. The record holds
  the slots of all three, and a constructor leaves every slot empty and sets every format to
  \<open>ContextOutputFormat_Unspecified\<close>. The lists \<open>navPath\<close> and \<open>sourceDef\<close>, the
  link structures and the slots that do not hold text are left out: the accessors modelled
  here do not touch them.
\<close>

record Cachable =
  details :: "TemplateVariant option"
  detailsOutputFormat :: ContextOutputFormat
  brief :: "TemplateVariant option"
  briefOutputFormat :: ContextOutputFormat
  inbodyDocs :: "TemplateVariant option"
  inbodyDocsOutputFormat :: ContextOutputFormat
  example :: "TemplateVariant option"
  exampleOutputFormat :: ContextOutputFormat
  paramDocs :: "TemplateVariant option"
  sources :: "TemplateVariant option"

definition Cachable_new :: Cachable where
  "Cachable_new =
     \<lparr> details = None, detailsOutputFormat = ContextOutputFormat_Unspecified,
       brief = None, briefOutputFormat = ContextOutputFormat_Unspecified,
       inbodyDocs = None, inbodyDocsOutputFormat = ContextOutputFormat_Unspecified,
       example = None, exampleOutputFormat = ContextOutputFormat_Unspecified,
       paramDocs = None, sources = None \<rparr>"

text \<open>
  The mutable world of one definition: \<open>g_globals.outputFormat\<close>, the cookie that
  \<open>getCache\<close> returns, the error stream, and a counter of the runs of the documentation
  parser. The counter is not in the program; it records the calls of
  \<open>validatingParseDoc\<close> so that they can be counted.
\<close>

record World =
  outputFormat :: ContextOutputFormat
  cookie :: Cachable
  errorLog :: "string list"
  parserRuns :: nat

definition err_format :: string where
  "err_format = ''context.cpp: output format not yet supported'' @ [CHR 0x0A]"

text \<open>
  \<open>parseDoc\<close>: one run of the parser, then the visitor of the current output format.
  Both string constructors of \<open>TemplateVariant\<close> give a String value (the raw flag of
  the second one is not modelled).
\<close>

definition parseDoc ::
  "'root Collaborators \<Rightarrow> Definition \<Rightarrow> string \<Rightarrow> int \<Rightarrow> string \<Rightarrow> string \<Rightarrow> bool \<Rightarrow> World
     \<Rightarrow> TemplateVariant \<times> World" where
  "parseDoc ext def file line relPath docStr isBrief w =
     (let root = validatingParseDoc ext file line def docStr isBrief;
          w1 = w\<lparr>parserRuns := parserRuns w + 1\<rparr>;
          (ts, w2) =
            (case outputFormat w1 of
               ContextOutputFormat_Html \<Rightarrow> (HtmlDocVisitor ext root relPath def, w1)
             | ContextOutputFormat_Latex \<Rightarrow> (LatexDocVisitor ext root relPath file def, w1)
             | _ \<Rightarrow> ([], w1\<lparr>errorLog := errorLog w1 @ [err_format]\<rparr>))
      in (if isEmpty ext root then TV_String [] else TV_String ts, w2))"

definition relPathAsString :: "'root Collaborators \<Rightarrow> string" where
  "relPathAsString ext = (if createSubdirs ext then ''../../'' else [])"

text \<open>
  \<open>DefinitionContext::details\<close>, \<open>DefinitionContext::brief\<close> and
  \<open>DefinitionContext::inbodyDocs\<close>.
\<close>

definition DefinitionContext_details ::
  "'root Collaborators \<Rightarrow> Definition \<Rightarrow> World \<Rightarrow> TemplateVariant \<times> World" where
  "DefinitionContext_details ext m_def w =
     (let recompute =
            (let (v, w1) = parseDoc ext m_def (docFile m_def) (docLine m_def)
                             (relPathAsString ext) (documentation m_def) False w
             in (v, w1\<lparr>cookie := (cookie w1)\<lparr>details := Some v,
                                              detailsOutputFormat := outputFormat w1\<rparr>\<rparr>))
      in case details (cookie w) of
           None \<Rightarrow> recompute
         | Some v \<Rightarrow>
             if outputFormat w \<noteq> detailsOutputFormat (cookie w) then recompute else (v, w))"

definition DefinitionContext_brief ::
  "'root Collaborators \<Rightarrow> Definition \<Rightarrow> World \<Rightarrow> TemplateVariant \<times> World" where
  "DefinitionContext_brief ext m_def w =
     (let recompute =
            (if hasBriefDescription m_def then
               (let (v, w1) = parseDoc ext m_def (briefFile m_def) (briefLine m_def)
                                (relPathAsString ext) (briefDescription m_def) True w
                in (v, w1\<lparr>cookie := (cookie w1)\<lparr>brief := Some v,
                                                 briefOutputFormat := outputFormat w1\<rparr>\<rparr>))
             else (TV_String [], w\<lparr>cookie := (cookie w)\<lparr>brief := Some (TV_String [])\<rparr>\<rparr>))
      in case brief (cookie w) of
           None \<Rightarrow> recompute
         | Some v \<Rightarrow>
             if outputFormat w \<noteq> briefOutputFormat (cookie w) then recompute else (v, w))"

definition DefinitionContext_inbodyDocs ::
  "'root Collaborators \<Rightarrow> Definition \<Rightarrow> World \<Rightarrow> TemplateVariant \<times> World" where
  "DefinitionContext_inbodyDocs ext m_def w =
     (let recompute =
            (if inbodyDocumentation m_def \<noteq> [] then
               (let (v, w1) = parseDoc ext m_def (inbodyFile m_def) (inbodyLine m_def)
                                (relPathAsString ext) (inbodyDocumentation m_def) False w
                in (v, w1\<lparr>cookie := (cookie w1)\<lparr>inbodyDocs := Some v,
                                                 inbodyDocsOutputFormat := outputFormat w1\<rparr>\<rparr>))
             else (TV_String [], w\<lparr>cookie := (cookie w)\<lparr>inbodyDocs := Some (TV_String [])\<rparr>\<rparr>))
      in case inbodyDocs (cookie w) of
           None \<Rightarrow> recompute
         | Some v \<Rightarrow>
             if outputFormat w \<noteq> inbodyDocsOutputFormat (cookie w) then recompute else (v, w))"

text \<open>
  \<open>PageContext::example\<close>; \<open>m_isExample\<close> is the flag that the constructor of the
  page context receives. The text that is parsed is the command \<open>include\<close>, written with a
  backslash before it, and the name of the page.
\<close>

definition PageContext_example ::
  "'root Collaborators \<Rightarrow> Definition \<Rightarrow> bool \<Rightarrow> World \<Rightarrow> TemplateVariant \<times> World" where
  "PageContext_example ext m_pageDef m_isExample w =
     (if m_isExample then
        (let recompute =
               (let (v, w1) = parseDoc ext m_pageDef (docFile m_pageDef) (docLine m_pageDef)
                                (relPathAsString ext)
                                ([CHR 0x5C] @ ''include '' @ def_name m_pageDef) False w
                in (v, w1\<lparr>cookie := (cookie w1)\<lparr>example := Some v,
                                                 exampleOutputFormat := outputFormat w1\<rparr>\<rparr>))
         in case example (cookie w) of
              None \<Rightarrow> recompute
            | Some v \<Rightarrow>
                if outputFormat w \<noteq> exampleOutputFormat (cookie w) then recompute else (v, w))
      else (TV_String [], w))"

text \<open>
  \<open>MemberContext::paramDocs\<close>, with the loop that collects the text of the documented
  arguments as a function that carries the local string \<open>paramDocs\<close>, here \<open>text\<close>.
\<close>

fun paramDocs_loop :: "'root Collaborators \<Rightarrow> Argument list \<Rightarrow> string \<Rightarrow> string" where
  "paramDocs_loop ext [] text = text"
| "paramDocs_loop ext (a # rest) text =
     (if arg_hasDocumentation a then
        (let (direction, docs) = extractDirection ext (arg_docs a)
         in paramDocs_loop ext rest
              (text @ ''@param'' @ direction @ '' '' @ arg_name a @ '' '' @ docs))
      else paramDocs_loop ext rest text)"

definition MemberContext_paramDocs ::
  "'root Collaborators \<Rightarrow> Definition \<Rightarrow> ArgumentList \<Rightarrow> World \<Rightarrow> TemplateVariant \<times> World" where
  "MemberContext_paramDocs ext m_memberDef argumentList w =
     (case paramDocs (cookie w) of
        None \<Rightarrow>
          if al_hasDocumentation argumentList then
            (let (v, w1) = parseDoc ext m_memberDef (docFile m_memberDef) (docLine m_memberDef)
                             (relPathAsString ext)
                             (paramDocs_loop ext (arguments argumentList) []) False w
             in (v, w1\<lparr>cookie := (cookie w1)\<lparr>paramDocs := Some v\<rparr>\<rparr>))
          else (TV_String [], w\<lparr>cookie := (cookie w)\<lparr>paramDocs := Some (TV_String [])\<rparr>\<rparr>)
      | Some v \<Rightarrow> (v, w))"

text \<open>
  \<open>parseCode\<close> for a file, and \<open>FileContext::sources\<close>.
\<close>

definition parseCode ::
  "'root Collaborators \<Rightarrow> FileDef \<Rightarrow> string \<Rightarrow> World \<Rightarrow> TemplateVariant \<times> World" where
  "parseCode ext fd relPath w =
     (case outputFormat w of
        ContextOutputFormat_Html \<Rightarrow> (TV_String (HtmlCodeGenerator ext fd relPath), w)
      | ContextOutputFormat_Latex \<Rightarrow> (TV_String (LatexCodeGenerator ext fd relPath), w)
      | _ \<Rightarrow> (TV_String [], w\<lparr>errorLog := errorLog w @ [err_format]\<rparr>))"

definition FileContext_sources ::
  "'root Collaborators \<Rightarrow> FileDef \<Rightarrow> World \<Rightarrow> TemplateVariant \<times> World" where
  "FileContext_sources ext m_fileDef w =
     (case sources (cookie w) of
        None \<Rightarrow>
          if generateSourceFile m_fileDef then
            (let (v, w1) = parseCode ext m_fileDef (relPathAsString ext) w
             in (v, w1\<lparr>cookie := (cookie w1)\<lparr>sources := Some v\<rparr>\<rparr>))
          else (TV_String [], w\<lparr>cookie := (cookie w)\<lparr>sources := Some (TV_String [])\<rparr>\<rparr>)
      | Some v \<Rightarrow> (v, w))"

text \<open>
  A sequence of render passes that each ask for one property once: before each request the
  pass sets \<open>g_globals.outputFormat\<close>. The values returned are collected.
\<close>

fun requests ::
  "(World \<Rightarrow> TemplateVariant \<times> World) \<Rightarrow> ContextOutputFormat list \<Rightarrow> World
     \<Rightarrow> TemplateVariant list \<times> World" where
  "requests accessor [] w = ([], w)"
| "requests accessor (f # fs) w =
     (let (v, w1) = accessor (w\<lparr>outputFormat := f\<rparr>);
          (vs, w2) = requests accessor fs w1
      in (v # vs, w2))"

subsection \<open>The pattern of the specification\<close>

text \<open>
  The specification describes one pattern for all accessors of cached text: if the cache
  slot is unset, or its recorded output format no longer matches the format of the current
  render pass, recompute and store; otherwise return the stored value. \<open>cached_text\<close>
  is this pattern, for a slot that is read with \<open>slot\<close> and \<open>fmt\<close> and written, together
  with the format, by \<open>store\<close>.
\<close>

definition cached_text ::
  "(Cachable \<Rightarrow> TemplateVariant option) \<Rightarrow> (Cachable \<Rightarrow> ContextOutputFormat)
     \<Rightarrow> (TemplateVariant \<Rightarrow> ContextOutputFormat \<Rightarrow> Cachable \<Rightarrow> Cachable)
     \<Rightarrow> (World \<Rightarrow> TemplateVariant \<times> World) \<Rightarrow> World \<Rightarrow> TemplateVariant \<times> World" where
  "cached_text slot fmt store compute w =
     (case slot (cookie w) of
        Some v0 \<Rightarrow>
          if outputFormat w = fmt (cookie w) then (v0, w)
          else (let (v, w1) = compute w
                in (v, w1\<lparr>cookie := store v (outputFormat w1) (cookie w1)\<rparr>))
      | None \<Rightarrow>
          (let (v, w1) = compute w
           in (v, w1\<lparr>cookie := store v (outputFormat w1) (cookie w1)\<rparr>)))"

definition store_details :: "TemplateVariant \<Rightarrow> ContextOutputFormat \<Rightarrow> Cachable \<Rightarrow> Cachable" where
  "store_details v f c = c\<lparr>details := Some v, detailsOutputFormat := f\<rparr>"

definition store_brief :: "TemplateVariant \<Rightarrow> ContextOutputFormat \<Rightarrow> Cachable \<Rightarrow> Cachable" where
  "store_brief v f c = c\<lparr>brief := Some v, briefOutputFormat := f\<rparr>"

definition store_inbodyDocs :: "TemplateVariant \<Rightarrow> ContextOutputFormat \<Rightarrow> Cachable \<Rightarrow> Cachable" where
  "store_inbodyDocs v f c = c\<lparr>inbodyDocs := Some v, inbodyDocsOutputFormat := f\<rparr>"

definition store_example :: "TemplateVariant \<Rightarrow> ContextOutputFormat \<Rightarrow> Cachable \<Rightarrow> Cachable" where
  "store_example v f c = c\<lparr>example := Some v, exampleOutputFormat := f\<rparr>"

subsection \<open>A documented symbol\<close>

text \<open>
  A symbol with detailed and in-body documentation and without a brief description, a parser that
  returns the text it is given, visitors and code generators that mark the text with the
  format, and a world with a new cookie in which the HTML pass is running.
\<close>

definition foo_def :: Definition where
  "foo_def =
     \<lparr> def_name = ''Foo'',
       docFile = ''foo.h'', docLine = 10, documentation = ''Details of Foo.'',
       briefFile = ''foo.h'', briefLine = 9, briefDescription = [],
       hasBriefDescription = False,
       inbodyFile = ''foo.cpp'', inbodyLine = 20, inbodyDocumentation = ''Inside Foo.'' \<rparr>"

definition echo_parser :: "string Collaborators" where
  "echo_parser =
     \<lparr> validatingParseDoc = (\<lambda>file line def docStr isBrief. docStr),
       isEmpty = (\<lambda>root. root = []),
       HtmlDocVisitor = (\<lambda>root relPath def. ''<p>'' @ root @ ''</p>''),
       LatexDocVisitor = (\<lambda>root relPath file def. ''{'' @ root @ ''}''),
       createSubdirs = False,
       extractDirection = (\<lambda>docs. ([], docs)),
       HtmlCodeGenerator = (\<lambda>fd relPath. ''<pre>'' @ absFilePath fd @ ''</pre>''),
       LatexCodeGenerator = (\<lambda>fd relPath. ''{code '' @ absFilePath fd @ ''}'') \<rparr>"

definition html_world :: World where
  "html_world =
     \<lparr> outputFormat = ContextOutputFormat_Html, cookie = Cachable_new, errorLog = [],
       parserRuns = 0 \<rparr>"

text \<open>
  A symbol with a brief description and without documentation in its body; the page of the
  example \<open>demo.cpp\<close>; the arguments of a member, of which \<open>x\<close> is documented; and a
  file whose sources are shown.
\<close>

definition bar_def :: Definition where
  "bar_def =
     \<lparr> def_name = ''Bar'',
       docFile = ''bar.h'', docLine = 4, documentation = ''Details of Bar.'',
       briefFile = ''bar.h'', briefLine = 3, briefDescription = ''Brief of Bar.'',
       hasBriefDescription = True,
       inbodyFile = [], inbodyLine = -1, inbodyDocumentation = [] \<rparr>"

definition demo_page :: Definition where
  "demo_page =
     \<lparr> def_name = ''demo.cpp'',
       docFile = ''demo.cpp'', docLine = 1, documentation = [],
       briefFile = [], briefLine = -1, briefDescription = [],
       hasBriefDescription = False,
       inbodyFile = [], inbodyLine = -1, inbodyDocumentation = [] \<rparr>"

definition foo_arguments :: ArgumentList where
  "foo_arguments =
     \<lparr> arguments =
         [\<lparr> arg_name = ''x'', arg_docs = ''the x'', arg_hasDocumentation = True \<rparr>,
          \<lparr> arg_name = ''y'', arg_docs = [], arg_hasDocumentation = False \<rparr>],
       al_hasDocumentation = True \<rparr>"

definition foo_file :: FileDef where
  "foo_file = \<lparr> absFilePath = ''/src/foo.cpp'', generateSourceFile = True \<rparr>"

section \<open>Trees of template structs\<close>

text \<open>
  The depth functions read a tree through the interfaces \<open>TemplateListIntf\<close> and
  \<open>TemplateStructIntf\<close> only: a list is iterated from first to last, and of a struct the
  property \<open>children\<close> is read and converted with \<open>toList\<close>, which gives a null pointer
  when the property does not hold a list. So a struct is modelled by what it carries besides
  (\<open>node_data\<close>) and by its children, \<open>None\<close> for the null pointer. The C \<open>int\<close>
  of depths and counts is modelled by the unbounded integers: the values are bounded by the
  number of nodes of the tree, which stays far below the range of \<open>int\<close>.
\<close>

datatype 'a TemplateStruct =
  TemplateStruct (node_data: 'a) (children: "'a TemplateStruct list option")

text \<open>
  \<open>computeMaxDepth\<close>, with the loop over the list as a second function that carries
  the local variable \<open>maxDepth\<close>.
\<close>

fun computeMaxDepth :: "'a TemplateStruct list option \<Rightarrow> int"
  and computeMaxDepth_loop :: "'a TemplateStruct list \<Rightarrow> int \<Rightarrow> int" where
  "computeMaxDepth None = 0"
| "computeMaxDepth (Some list) = computeMaxDepth_loop list 0"
| "computeMaxDepth_loop [] maxDepth = maxDepth"
| "computeMaxDepth_loop (TemplateStruct a child # rest) maxDepth =
     (let d = computeMaxDepth child + 1
      in computeMaxDepth_loop rest (if d > maxDepth then d else maxDepth))"

text \<open>
  \<open>computeNumNodesAtLevel\<close>, with the loop over the children as a second function that
  carries the local variable \<open>num\<close>.
\<close>

fun computeNumNodesAtLevel :: "'a TemplateStruct \<Rightarrow> int \<Rightarrow> int \<Rightarrow> int"
  and computeNumNodesAtLevel_loop :: "'a TemplateStruct list \<Rightarrow> int \<Rightarrow> int \<Rightarrow> int \<Rightarrow> int" where
  "computeNumNodesAtLevel (TemplateStruct a child) level maxLevel =
     (if level < maxLevel then
        (case child of
           None \<Rightarrow> 1
         | Some list \<Rightarrow> computeNumNodesAtLevel_loop list (level + 1) maxLevel 1)
      else 0)"
| "computeNumNodesAtLevel_loop [] level maxLevel num = num"
| "computeNumNodesAtLevel_loop (v # rest) level maxLevel num =
     computeNumNodesAtLevel_loop rest level maxLevel (num + computeNumNodesAtLevel v level maxLevel)"

text \<open>
  \<open>computePreferredDepth\<close>: \<open>countNodes\<close> is the inner loop, which adds up the nodes
  of all roots up to limit \<open>i\<close>; \<open>computePreferredDepth_loop\<close> is the outer loop over
  the depths with its \<open>break\<close>. The list is dereferenced without a test, so it is not a
  null pointer; \<open>preferredNumEntries\<close> is the configuration value HTML_INDEX_NUM_ENTRIES.
\<close>

fun countNodes :: "'a TemplateStruct list \<Rightarrow> int \<Rightarrow> int \<Rightarrow> int" where
  "countNodes [] i num = num"
| "countNodes (v # rest) i num = countNodes rest i (num + computeNumNodesAtLevel v 0 i)"

function computePreferredDepth_loop ::
  "int \<Rightarrow> 'a TemplateStruct list \<Rightarrow> int \<Rightarrow> int \<Rightarrow> int \<Rightarrow> int" where
  "computePreferredDepth_loop preferredNumEntries list depth i preferredDepth =
     (if i \<le> depth then
        (let num = countNodes list i 0
         in if num \<le> preferredNumEntries
            then computePreferredDepth_loop preferredNumEntries list depth (i + 1) i
            else preferredDepth)
      else preferredDepth)"
  by pat_completeness auto
termination
  by (relation "measure (\<lambda>(T, list, depth, i, p). nat (depth + 1 - i))") auto

declare computePreferredDepth_loop.simps [simp del]

definition computePreferredDepth :: "int \<Rightarrow> 'a TemplateStruct list \<Rightarrow> int \<Rightarrow> int" where
  "computePreferredDepth preferredNumEntries list maxDepth =
     (if preferredNumEntries > 0
      then computePreferredDepth_loop preferredNumEntries list maxDepth 1 1
      else 1)"

text \<open>
  The directory tree of the scenario: the file \<open>F1\<close> without a directory, and the
  directory \<open>D1\<close> with the file \<open>F2\<close>.
\<close>

definition two_roots :: "string TemplateStruct list" where
  "two_roots =
     [TemplateStruct ''F1'' (Some []),
      TemplateStruct ''D1'' (Some [TemplateStruct ''F2'' (Some [])])]"

text \<open>
  The spec's \<open>countNodesUpTo(node, level, limit)\<close> counts the node itself and all its
  descendants whose level stays below the limit. \<open>node_levels s level\<close> lists the level
  of every node of the tree \<open>s\<close> whose root is at level \<open>level\<close>, each child one
  level below its parent, and \<open>countNodesUpTo\<close> counts the entries below the limit.
  Both follow the spec's words and are compared with \<open>computeNumNodesAtLevel\<close>.
\<close>

fun node_levels :: "'a TemplateStruct \<Rightarrow> int \<Rightarrow> int list"
  and node_levels_list :: "'a TemplateStruct list \<Rightarrow> int \<Rightarrow> int list" where
  "node_levels (TemplateStruct a child) level =
     level # (case child of None \<Rightarrow> [] | Some list \<Rightarrow> node_levels_list list (level + 1))"
| "node_levels_list [] level = []"
| "node_levels_list (v # rest) level = node_levels v level @ node_levels_list rest level"

definition countNodesUpTo :: "'a TemplateStruct \<Rightarrow> int \<Rightarrow> int \<Rightarrow> int" where
  "countNodesUpTo s level limit = int (length (filter (\<lambda>l. l < limit) (node_levels s level)))"

text \<open>
  A tree of depth 3 with the two roots \<open>A\<close> and \<open>F\<close>: 2 nodes at level 0, 3 at
  level 1 and 3 at level 2. The nodes \<open>C\<close>, \<open>E\<close> and \<open>H\<close> have no list of children.
\<close>

definition three_levels :: "string TemplateStruct list" where
  "three_levels =
     [TemplateStruct ''A''
        (Some [TemplateStruct ''B'' (Some [TemplateStruct ''C'' None,
                                           TemplateStruct ''D'' (Some [])]),
               TemplateStruct ''E'' None]),
      TemplateStruct ''F''
        (Some [TemplateStruct ''G'' (Some [TemplateStruct ''H'' None])])]"

section \<open>The symbol graph\<close>

text \<open>
  Classes and members are reached through pointers (\<open>const ClassDef *\<close>,
  \<open>const MemberDef *\<close>). A pointer is a natural number, and the store below maps it to the
  object it points to, so that two inheritance paths can reach one and the same class.
\<close>

type_synonym ClassDefPtr = nat
type_synonym MemberDefPtr = nat
type_synonym MemberListType = int

datatype Protection = Public | Protected | Private | Package

datatype SrcLangExt =
    SrcLangExt_Unknown | SrcLangExt_IDL | SrcLangExt_Java | SrcLangExt_CSharp | SrcLangExt_D
  | SrcLangExt_PHP | SrcLangExt_ObjC | SrcLangExt_Cpp | SrcLangExt_JS | SrcLangExt_Python
  | SrcLangExt_Fortran | SrcLangExt_VHDL | SrcLangExt_XML | SrcLangExt_SQL | SrcLangExt_Markdown
  | SrcLangExt_Slice | SrcLangExt_Lex

datatype VhdlClasses = ENTITYCLASS | PACKBODYCLASS | ARCHITECTURECLASS | PACKAGECLASS

datatype MemberListContainer =
    MemberListContainer_File | MemberListContainer_Namespace
  | MemberListContainer_Group | MemberListContainer_Class

record BaseClassDef =
  classDef :: ClassDefPtr
  prot :: Protection

text \<open>
  What the inherited-member lists read of a member: \<open>getSectionList_listType c\<close> stands
  for \<open>getSectionList(c)->listType()\<close>.
\<close>

record MemberDef =
  isBriefSectionVisible :: bool
  isReimplementedBy :: "ClassDefPtr \<Rightarrow> bool"
  getSectionList_listType :: "MemberListContainer \<Rightarrow> MemberListType"

record MemberGroup =
  mg_members :: "MemberDefPtr list"
  allMembersInSameSection :: bool
  container :: MemberListContainer

text \<open>A \<open>MemberList\<close> is a vector of members with a list type and its member groups.\<close>

record MemberList =
  listType :: MemberListType
  ml_members :: "MemberDefPtr list"
  getMemberGroupList :: "MemberGroup list"

text \<open>
  What is read of a class. \<open>vhdlProtection\<close> is the value of
  \<open>(VhdlDocGen::VhdlClasses)cd->protection()\<close>. The method
  \<open>countMembersIncludingGrouped\<close> is implemented outside \<open>context.cpp\<close> and is taken
  as it comes: a function of the list type, the inheriting class and the flag.
\<close>

record ClassDef =
  baseClasses :: "BaseClassDef list"
  subClasses :: "BaseClassDef list"
  isLinkable :: bool
  isVisibleInHierarchy :: bool
  getLanguage :: SrcLangExt
  vhdlProtection :: VhdlClasses
  getMemberList :: "MemberListType \<Rightarrow> MemberList option"
  getMemberGroups :: "MemberGroup list"
  subGrouping :: bool
  countMembersIncludingGrouped :: "MemberListType \<Rightarrow> ClassDefPtr \<Rightarrow> bool \<Rightarrow> int"

text \<open>
  The store of classes and members, and the three functions of other source files that the
  traversals call: \<open>convertProtectionLevel\<close> with its two output parameters as a pair,
  \<open>hasVisibleRoot\<close> and \<open>classHasVisibleChildren\<close>.
\<close>

record Symbols =
  classAt :: "ClassDefPtr \<Rightarrow> ClassDef"
  memberAt :: "MemberDefPtr \<Rightarrow> MemberDef"
  convertProtectionLevel :: "MemberListType \<Rightarrow> Protection \<Rightarrow> int \<times> int"
  hasVisibleRoot :: "BaseClassDef list \<Rightarrow> bool"
  classHasVisibleChildren :: "ClassDefPtr \<Rightarrow> bool"

section \<open>Inherited members\<close>

text \<open>An entry of the list, as \<open>InheritedMemberInfoContext::alloc\<close> receives it.\<close>

record InheritedMemberInfo =
  m_class :: ClassDefPtr
  m_memberList :: MemberList
  m_title :: string

text \<open>\<open>InheritedMemberInfoListContext::Private::addMemberList\<close>.\<close>

definition Private_addMemberList ::
  "Symbols \<Rightarrow> ClassDefPtr \<Rightarrow> MemberDefPtr list \<Rightarrow> MemberDefPtr list \<Rightarrow> MemberDefPtr list" where
  "Private_addMemberList g inheritedFrom ml combinedList =
     combinedList @
       filter (\<lambda>md. isBriefSectionVisible (memberAt g md) \<and>
                    \<not> isReimplementedBy (memberAt g md) inheritedFrom) ml"

definition addMemberListIncludingGrouped ::
  "Symbols \<Rightarrow> ClassDefPtr \<Rightarrow> MemberList option \<Rightarrow> MemberDefPtr list \<Rightarrow> MemberDefPtr list" where
  "addMemberListIncludingGrouped g inheritedFrom ml combinedList =
     (case ml of
        None \<Rightarrow> combinedList
      | Some l \<Rightarrow>
          foldl (\<lambda>acc mg. Private_addMemberList g inheritedFrom (mg_members mg) acc)
            (Private_addMemberList g inheritedFrom (ml_members l) combinedList)
            (getMemberGroupList l))"

definition addMemberGroupsOfClass ::
  "Symbols \<Rightarrow> ClassDefPtr \<Rightarrow> ClassDefPtr \<Rightarrow> MemberListType \<Rightarrow> MemberDefPtr list
     \<Rightarrow> MemberDefPtr list" where
  "addMemberGroupsOfClass g inheritedFrom cd lt combinedList =
     foldl (\<lambda>acc mg.
              if mg_members mg \<noteq> [] \<and>
                 (\<not> allMembersInSameSection mg \<or> \<not> subGrouping (classAt g cd))
              then acc @
                filter (\<lambda>md. lt = getSectionList_listType (memberAt g md) (container mg) \<and>
                             \<not> isReimplementedBy (memberAt g md) inheritedFrom \<and>
                             isBriefSectionVisible (memberAt g md)) (mg_members mg)
              else acc)
       combinedList (getMemberGroups (classAt g cd))"

text \<open>The list that \<open>addInheritedMembers\<close> combines for one base class.\<close>

definition combinedList ::
  "Symbols \<Rightarrow> ClassDefPtr \<Rightarrow> ClassDefPtr \<Rightarrow> MemberListType \<Rightarrow> MemberListType \<Rightarrow> int
     \<Rightarrow> MemberDefPtr list" where
  "combinedList g inheritedFrom cd lt lt1 lt2 =
     (let ml = getMemberList (classAt g cd) lt1;
          ml2 = (if lt2 \<noteq> -1 then getMemberList (classAt g cd) lt2 else None);
          c1 = addMemberListIncludingGrouped g inheritedFrom ml [];
          c2 = addMemberListIncludingGrouped g inheritedFrom ml2 c1;
          c3 = addMemberGroupsOfClass g inheritedFrom cd lt c2
      in if lt2 \<noteq> -1 then addMemberGroupsOfClass g inheritedFrom cd lt2 c3 else c3)"

definition addInheritedMembers ::
  "Symbols \<Rightarrow> ClassDefPtr \<Rightarrow> ClassDefPtr \<Rightarrow> MemberListType \<Rightarrow> MemberListType \<Rightarrow> int
     \<Rightarrow> string \<Rightarrow> bool \<Rightarrow> InheritedMemberInfo list \<Rightarrow> InheritedMemberInfo list" where
  "addInheritedMembers g inheritedFrom cd lt lt1 lt2 title additionalList p =
     (let count0 = countMembersIncludingGrouped (classAt g cd) lt1 inheritedFrom additionalList;
          count = (if lt2 \<noteq> -1
                   then count0 + countMembersIncludingGrouped (classAt g cd) lt2 inheritedFrom additionalList
                   else count0)
      in if count > 0
         then p @ [\<lparr> m_class = cd,
                      m_memberList = \<lparr> listType = lt,
                                       ml_members = combinedList g inheritedFrom cd lt lt1 lt2,
                                       getMemberGroupList = [] \<rparr>,
                      m_title = title \<rparr>]
         else p)"

text \<open>
  \<open>findInheritedMembers\<close> calls itself for every base class that it has not visited. The
  first argument bounds the depth of these calls: with no fuel left the function gives
  \<open>None\<close>. The state is the list of entries appended so far and the set
  \<open>visitedClasses\<close>, which the source passes by reference. The parameter \<open>lt2\<close> is
  assigned inside the loop and keeps its value for the base classes that follow.
\<close>

function findInheritedMembers ::
  "nat \<Rightarrow> Symbols \<Rightarrow> ClassDefPtr \<Rightarrow> ClassDefPtr \<Rightarrow> MemberListType \<Rightarrow> int \<Rightarrow> string \<Rightarrow> bool
     \<Rightarrow> InheritedMemberInfo list \<times> ClassDefPtr set
     \<Rightarrow> (InheritedMemberInfo list \<times> ClassDefPtr set) option"
  and findInheritedMembers_loop ::
  "nat \<Rightarrow> Symbols \<Rightarrow> ClassDefPtr \<Rightarrow> BaseClassDef list \<Rightarrow> MemberListType \<Rightarrow> int \<Rightarrow> string \<Rightarrow> bool
     \<Rightarrow> InheritedMemberInfo list \<times> ClassDefPtr set
     \<Rightarrow> (InheritedMemberInfo list \<times> ClassDefPtr set) option" where
  "findInheritedMembers 0 g inheritedFrom cd lt lt2 title additionalList st = None"
| "findInheritedMembers (Suc n) g inheritedFrom cd lt lt2 title additionalList st =
     findInheritedMembers_loop n g inheritedFrom (baseClasses (classAt g cd)) lt lt2 title
       additionalList st"
| "findInheritedMembers_loop n g inheritedFrom [] lt lt2 title additionalList st = Some st"
| "findInheritedMembers_loop n g inheritedFrom (ibcd # rest) lt lt2 title additionalList st =
     (let icd = classDef ibcd; p = fst st; visitedClasses = snd st
      in if isLinkable (classAt g icd) then
           (let lt1 = fst (convertProtectionLevel g lt (prot ibcd));
                lt3 = snd (convertProtectionLevel g lt (prot ibcd));
                lt2' = (if lt2 = -1 \<and> lt3 \<noteq> -1 then lt3 else lt2)
            in if icd \<notin> visitedClasses then
                 (if lt1 \<noteq> -1 then
                    (case findInheritedMembers n g inheritedFrom icd lt1 lt2' title additionalList
                            (addInheritedMembers g inheritedFrom icd lt lt1 lt2' title
                               additionalList p,
                             insert icd visitedClasses) of
                       None \<Rightarrow> None
                     | Some st' \<Rightarrow>
                         findInheritedMembers_loop n g inheritedFrom rest lt lt2' title
                           additionalList st')
                  else findInheritedMembers_loop n g inheritedFrom rest lt lt2' title
                         additionalList (p, insert icd visitedClasses))
               else findInheritedMembers_loop n g inheritedFrom rest lt lt2' title
                      additionalList st)
         else findInheritedMembers_loop n g inheritedFrom rest lt lt2 title additionalList st)"
  by pat_completeness auto
termination
  by (relation "inv_image (less_than <*lex*> less_than)
        (\<lambda>x. case x of
           Inl (n, g, inheritedFrom, cd, r) \<Rightarrow> (n, 0)
         | Inr (n, g, inheritedFrom, bcl, r) \<Rightarrow> (n, Suc (length bcl)))") auto

text \<open>
  \<open>InheritedMemberInfoListContext::addMemberList\<close>; \<open>p\<close> is the list that the context
  holds when the call starts.
\<close>

definition addMemberList ::
  "nat \<Rightarrow> Symbols \<Rightarrow> ClassDefPtr \<Rightarrow> MemberListType \<Rightarrow> string \<Rightarrow> bool \<Rightarrow> InheritedMemberInfo list
     \<Rightarrow> InheritedMemberInfo list option" where
  "addMemberList fuel g cd lt title additionalList p =
     (let visited = {};
          memberInSection = (countMembersIncludingGrouped (classAt g cd) lt cd False > 0);
          show = ((additionalList \<and> \<not> memberInSection) \<or> (\<not> additionalList \<and> memberInSection))
      in if show
         then map_option fst
                (findInheritedMembers fuel g cd cd lt (-1) title additionalList (p, visited))
         else Some p)"

section \<open>The class hierarchy tree\<close>

text \<open>
  A node of a nesting tree is a \<open>TemplateStruct\<close> that carries the definition, the index
  among its siblings and the level. Its list \<open>m_children\<close> is allocated by the constructor,
  so the property \<open>children\<close> of such a node is always a list.
\<close>

record NestingNodeData =
  m_def :: ClassDefPtr
  m_index :: int
  m_level :: int

type_synonym NestingNode = "NestingNodeData TemplateStruct"

text \<open>
  The constructor of a node of the class hierarchy, with \<open>addClasses\<close> inlined, and
  \<open>NestingContext::Private::addDerivedClasses\<close>. Every node of this tree wraps a class
  and is allocated with \<open>inherit = TRUE\<close> (by \<open>addClassHierarchy\<close> and by
  \<open>addDerivedClasses\<close>), so the model fixes this argument; for a class the calls
  \<open>addNamespaces\<close>, \<open>addDirFiles\<close>, \<open>addPages\<close> and \<open>addModules\<close> add nothing,
  and \<open>addMembers\<close> fills the separate list \<open>m_members\<close> without reading or changing
  \<open>visitedClasses\<close>. The first argument bounds the depth of the nested constructor calls.
  The state of \<open>addDerivedClasses\<close> is the list of nodes with the next index
  \<open>m_index\<close>, and the set \<open>visitedClasses\<close>.
\<close>

function NestingNodeContext_alloc ::
  "nat \<Rightarrow> Symbols \<Rightarrow> ClassDefPtr \<Rightarrow> int \<Rightarrow> int \<Rightarrow> bool \<Rightarrow> ClassDefPtr set
     \<Rightarrow> (NestingNode \<times> ClassDefPtr set) option"
  and addDerivedClasses ::
  "nat \<Rightarrow> Symbols \<Rightarrow> BaseClassDef list \<Rightarrow> bool \<Rightarrow> int
     \<Rightarrow> (NestingNode list \<times> int) \<times> ClassDefPtr set
     \<Rightarrow> ((NestingNode list \<times> int) \<times> ClassDefPtr set) option" where
  "NestingNodeContext_alloc 0 g cd index level hideSuper visitedClasses = None"
| "NestingNodeContext_alloc (Suc n) g cd index level hideSuper visitedClasses =
     (let hasChildren = (cd \<notin> visitedClasses \<and> \<not> hideSuper \<and> classHasVisibleChildren g cd)
      in if hasChildren then
           (case addDerivedClasses n g
                   (if getLanguage (classAt g cd) = SrcLangExt_VHDL
                    then baseClasses (classAt g cd) else subClasses (classAt g cd))
                   False (level + 1) (([], 0), insert cd visitedClasses) of
              None \<Rightarrow> None
            | Some st \<Rightarrow>
                Some (TemplateStruct \<lparr> m_def = cd, m_index = index, m_level = level \<rparr>
                        (Some (fst (fst st))), snd st))
         else Some (TemplateStruct \<lparr> m_def = cd, m_index = index, m_level = level \<rparr> (Some []),
                    visitedClasses))"
| "addDerivedClasses n g [] hideSuper level st = Some st"
| "addDerivedClasses n g (bcd # rest) hideSuper level st =
     (let cd = classDef bcd
      in if getLanguage (classAt g cd) = SrcLangExt_VHDL \<and>
            vhdlProtection (classAt g cd) \<noteq> ENTITYCLASS
         then addDerivedClasses n g rest hideSuper level st
         else
           (let b = (if getLanguage (classAt g cd) = SrcLangExt_VHDL
                     then hasVisibleRoot g (subClasses (classAt g cd))
                     else hasVisibleRoot g (baseClasses (classAt g cd)))
            in if isVisibleInHierarchy (classAt g cd) \<and> b then
                 (case NestingNodeContext_alloc n g cd (snd (fst st)) level hideSuper (snd st) of
                    None \<Rightarrow> None
                  | Some r \<Rightarrow>
                      addDerivedClasses n g rest hideSuper level
                        ((fst (fst st) @ [fst r], snd (fst st) + 1), snd r))
               else addDerivedClasses n g rest hideSuper level st))"
  by pat_completeness auto
termination
  by (relation "inv_image (less_than <*lex*> less_than)
        (\<lambda>x. case x of
           Inl (n, g, cd, r) \<Rightarrow> (n, 0)
         | Inr (n, g, bcl, r) \<Rightarrow> (n, Suc (length bcl)))") auto

text \<open>\<open>NestingContext::Private::addClassHierarchy\<close>, over the classes in map order.\<close>

fun addClassHierarchy ::
  "nat \<Rightarrow> Symbols \<Rightarrow> ClassDefPtr list \<Rightarrow> int
     \<Rightarrow> (NestingNode list \<times> int) \<times> ClassDefPtr set
     \<Rightarrow> ((NestingNode list \<times> int) \<times> ClassDefPtr set) option" where
  "addClassHierarchy fuel g [] level st = Some st"
| "addClassHierarchy fuel g (cd # rest) level st =
     (if getLanguage (classAt g cd) = SrcLangExt_VHDL \<and>
         vhdlProtection (classAt g cd) \<noteq> ENTITYCLASS
      then addClassHierarchy fuel g rest level st
      else
        (let b = (if getLanguage (classAt g cd) = SrcLangExt_VHDL
                  then \<not> hasVisibleRoot g (subClasses (classAt g cd))
                  else \<not> hasVisibleRoot g (baseClasses (classAt g cd)))
         in if b \<and> isVisibleInHierarchy (classAt g cd) then
              (case NestingNodeContext_alloc fuel g cd (snd (fst st)) level False (snd st) of
                 None \<Rightarrow> None
               | Some r \<Rightarrow>
                   addClassHierarchy fuel g rest level
                     ((fst (fst st) @ [fst r], snd (fst st) + 1), snd r))
            else addClassHierarchy fuel g rest level st))"

text \<open>
  The constructor of \<open>ClassHierarchyContext::Private\<close>: one set \<open>visitedClasses\<close> for
  the two calls, and the tree \<open>m_classTree\<close> as the result.
\<close>

definition ClassHierarchyContext_new ::
  "nat \<Rightarrow> Symbols \<Rightarrow> ClassDefPtr list \<Rightarrow> ClassDefPtr list \<Rightarrow> NestingNode list option" where
  "ClassHierarchyContext_new fuel g classLinkedMap hiddenClassLinkedMap =
     (case addClassHierarchy fuel g classLinkedMap 0 (([], 0), {}) of
        None \<Rightarrow> None
      | Some st \<Rightarrow>
          (case addClassHierarchy fuel g hiddenClassLinkedMap 0 st of
             None \<Rightarrow> None
           | Some st' \<Rightarrow> Some (fst (fst st'))))"

text \<open>The classes of a node and of all nodes below it, in the order of the tree.\<close>

fun defs_of :: "NestingNode \<Rightarrow> ClassDefPtr list"
  and defs_of_list :: "NestingNode list \<Rightarrow> ClassDefPtr list" where
  "defs_of (TemplateStruct d None) = [m_def d]"
| "defs_of (TemplateStruct d (Some l)) = m_def d # defs_of_list l"
| "defs_of_list [] = []"
| "defs_of_list (x # xs) = defs_of x @ defs_of_list xs"

section \<open>Symbol graphs of plain C++ classes\<close>

text \<open>
  \<open>cpp_classes bases subs members\<close> is the symbol graph of C++ classes in which class \<open>c\<close>
  has the base classes \<open>bases c\<close> and the subclasses \<open>subs c\<close>, all by public
  inheritance, and the members \<open>members c lt\<close> in its list of type \<open>lt\<close>. All classes are
  linkable and visible, all members are visible and none is reimplemented, and there are no
  member groups. \<open>countMembersIncludingGrouped\<close> counts the members of the list,
  \<open>convertProtectionLevel\<close> keeps the list type and names no second one, a class has a
  visible root when it has a base class, and visible children when it has a subclass.
\<close>

definition cpp_classes ::
  "(ClassDefPtr \<Rightarrow> ClassDefPtr list) \<Rightarrow> (ClassDefPtr \<Rightarrow> ClassDefPtr list)
     \<Rightarrow> (ClassDefPtr \<Rightarrow> MemberListType \<Rightarrow> MemberDefPtr list) \<Rightarrow> Symbols" where
  "cpp_classes bases subs members =
     \<lparr> classAt = (\<lambda>c.
         \<lparr> baseClasses = map (\<lambda>b. \<lparr> classDef = b, prot = Public \<rparr>) (bases c),
           subClasses = map (\<lambda>b. \<lparr> classDef = b, prot = Public \<rparr>) (subs c),
           isLinkable = True,
           isVisibleInHierarchy = True,
           getLanguage = SrcLangExt_Cpp,
           vhdlProtection = ENTITYCLASS,
           getMemberList = (\<lambda>lt. if members c lt = [] then None
                                  else Some \<lparr> listType = lt, ml_members = members c lt,
                                              getMemberGroupList = [] \<rparr>),
           getMemberGroups = [],
           subGrouping = True,
           countMembersIncludingGrouped =
             (\<lambda>lt inheritedFrom additional. int (length (members c lt))) \<rparr>),
       memberAt = (\<lambda>m.
         \<lparr> isBriefSectionVisible = True,
           isReimplementedBy = (\<lambda>c. False),
           getSectionList_listType = (\<lambda>k. 1) \<rparr>),
       convertProtectionLevel = (\<lambda>lt p. (lt, -1)),
       hasVisibleRoot = (\<lambda>bcl. bcl \<noteq> []),
       classHasVisibleChildren = (\<lambda>c. subs c \<noteq> []) \<rparr>"

subsection \<open>A diamond of four classes\<close>

text \<open>
  Class 0 is \<open>A\<close>, classes 1 and 2 are \<open>B\<close> and \<open>C\<close>, which derive from \<open>A\<close>, and
  class 3 is \<open>D\<close>, which derives from \<open>B\<close> and \<open>C\<close>. \<open>A\<close> declares member 10 in the
  list of type 1 and member 11 in the list of type 2, \<open>D\<close> declares member 13 in the list
  of type 1.
\<close>

definition diamond_bases :: "ClassDefPtr \<Rightarrow> ClassDefPtr list" where
  "diamond_bases c = (if c = 1 \<or> c = 2 then [0] else if c = 3 then [1, 2] else [])"

definition diamond_subs :: "ClassDefPtr \<Rightarrow> ClassDefPtr list" where
  "diamond_subs c = (if c = 0 then [1, 2] else if c = 1 \<or> c = 2 then [3] else [])"

definition diamond_lists :: "ClassDefPtr \<Rightarrow> MemberListType \<Rightarrow> MemberDefPtr list" where
  "diamond_lists c lt =
     (if c = 0 \<and> lt = 1 then [10] else if c = 0 \<and> lt = 2 then [11]
      else if c = 3 \<and> lt = 1 then [13] else [])"

definition diamond :: Symbols where
  "diamond = cpp_classes diamond_bases diamond_subs diamond_lists"

subsection \<open>The diamond with a member group\<close>

text \<open>
  The diamond in which \<open>A\<close> has, besides its lists, a member group in a section of its
  own that holds member 10, the member of its list of type 1.
\<close>

definition diamond_grouped :: Symbols where
  "diamond_grouped =
     diamond\<lparr> classAt := (\<lambda>c.
       if c = 0
       then (classAt diamond 0)\<lparr> getMemberGroups :=
              [\<lparr> mg_members = [10], allMembersInSameSection = False,
                  container = MemberListContainer_Class \<rparr>] \<rparr>
       else classAt diamond c) \<rparr>"

subsection \<open>The diamond with a class below it\<close>

text \<open>The diamond, and class 4, \<open>E\<close>, which derives from \<open>D\<close>.\<close>

definition diamond_E_bases :: "ClassDefPtr \<Rightarrow> ClassDefPtr list" where
  "diamond_E_bases c = (if c = 4 then [3] else diamond_bases c)"

definition diamond_E_subs :: "ClassDefPtr \<Rightarrow> ClassDefPtr list" where
  "diamond_E_subs c = (if c = 3 then [4] else diamond_subs c)"

definition diamond_E :: Symbols where
  "diamond_E = cpp_classes diamond_E_bases diamond_E_subs diamond_lists"

subsection \<open>Three classes with a cycle\<close>

text \<open>
  Class 0 has the subclass 1, class 1 has the subclass 2, and class 2 has the subclass 1
  again: the subclass edges run in a cycle that is reached from the root 0. No compiler
  accepts such classes, but the symbol graph is built from whatever the parsers read.
\<close>

definition cyclic_subs :: "ClassDefPtr \<Rightarrow> ClassDefPtr list" where
  "cyclic_subs c = (if c = 0 then [1] else if c = 1 then [2] else if c = 2 then [1] else [])"

definition cyclic_bases :: "ClassDefPtr \<Rightarrow> ClassDefPtr list" where
  "cyclic_bases c = (if c = 1 then [0, 2] else if c = 2 then [1] else [])"

definition cyclic :: Symbols where
  "cyclic = cpp_classes cyclic_bases cyclic_subs (\<lambda>c lt. [])"

section \<open>What one traversal adds\<close>

text \<open>
  \<open>emits g inheritedFrom st st'\<close> relates the state before a part of the traversal to the
  state after it: entries are only appended, classes are only added to the visited set,
  every appended entry belongs to a class that this part of the traversal has inserted
  into the visited set, no two appended entries belong to the same class, and the members
  of an appended entry are the combined list of its class.
\<close>

definition emits ::
  "Symbols \<Rightarrow> ClassDefPtr \<Rightarrow> InheritedMemberInfo list \<times> ClassDefPtr set
     \<Rightarrow> InheritedMemberInfo list \<times> ClassDefPtr set \<Rightarrow> bool" where
  "emits g inheritedFrom st st' \<longleftrightarrow>
     (\<exists>new. fst st' = fst st @ new \<and> snd st \<subseteq> snd st' \<and>
            m_class ` set new \<subseteq> snd st' - snd st \<and> distinct (map m_class new) \<and>
            (\<forall>e\<in>set new. \<exists>lt lt1 lt2.
               ml_members (m_memberList e) = combinedList g inheritedFrom (m_class e) lt lt1 lt2))"

section \<open>The property table\<close>

lemma addProperty_distinct:
  "distinct (map fst m) \<Longrightarrow>
     distinct (map fst (fst (PropertyMapper_addProperty name h (m, errs))))"
  by (auto simp: PropertyMapper_addProperty_def map_of_eq_None_iff split: option.splits)

text \<open>
  C7. Looking up a name that was never registered gives the None variant and leaves the
  world as it is, so no handler has run; looking up a registered name gives what its
  handler gives for the object.
\<close>

theorem get_lookup:
  "(name \<notin> fst ` set m \<longrightarrow> PropertyMapper_get m obj name st = (TV_None, st)) \<and>
   (distinct (map fst m) \<and> (name, h) \<in> set m \<longrightarrow>
      PropertyMapper_get m obj name st = h obj st)"
proof (intro conjI impI)
  assume "name \<notin> fst ` set m"
  then have "map_of m name = None" by (simp add: map_of_eq_None_iff)
  then show "PropertyMapper_get m obj name st = (TV_None, st)"
    by (simp add: PropertyMapper_get_def)
next
  assume "distinct (map fst m) \<and> (name, h) \<in> set m"
  then have "map_of m name = Some h" by simp
  then show "PropertyMapper_get m obj name st = h obj st"
    by (simp add: PropertyMapper_get_def)
qed

text \<open>
  A witness of C7 in the table of the scenario, for the object \<open>Foo\<close>: the unknown
  name gives None and the counter stays at 0; \<open>isLinkable\<close> runs its handler, which
  counts.
\<close>

theorem get_lookup_witness:
  "''nonexistent-name'' \<notin> fst ` set mock_table \<and>
   PropertyMapper_get mock_table ''Foo'' ''nonexistent-name'' 0 = (TV_None, 0) \<and>
   distinct (map fst mock_table) \<and>
   (''isLinkable'', \<lambda>obj st. (TV_Bool True, Suc st)) \<in> set mock_table \<and>
   PropertyMapper_get mock_table ''Foo'' ''isLinkable'' 0 = (TV_Bool True, 1)"
  using get_lookup [where name = "''nonexistent-name''" and m = mock_table
      and obj = "''Foo''" and st = 0]
    get_lookup [where name = "''isLinkable''" and m = mock_table
      and h = "\<lambda>obj st. (TV_Bool True, Suc st)" and obj = "''Foo''" and st = 0]
  by (simp add: mock_table_def)

lemma fields_eq:
  "distinct (map fst m) \<Longrightarrow> PropertyMapper_fields m = sorted_list_of_set (fst ` set m)"
  unfolding PropertyMapper_fields_def
  by (metis list.set_map sorted_list_of_set_sort_remdups distinct_remdups_id)

text \<open>
  C8. \<open>fields\<close> gives the registered names, each once, in increasing lexicographic order.
  The result is the sorted list of the set of names, so it is the same for every order in
  which the hash table hands out its entries. The table with \<open>name\<close> and \<open>isLinkable\<close>
  gives \<open>isLinkable\<close> first.
\<close>

theorem fields_sorted:
  "distinct (map fst m) \<Longrightarrow>
     PropertyMapper_fields m = sorted_list_of_set (fst ` set m) \<and>
     sorted (PropertyMapper_fields m) \<and> distinct (PropertyMapper_fields m) \<and>
     set (PropertyMapper_fields m) = fst ` set m \<and>
     PropertyMapper_fields [(''name'', h1), (''isLinkable'', h2)] = [''isLinkable'', ''name'']"
  using fields_eq[of m] by (simp add: PropertyMapper_fields_def)

text \<open>A witness of C8: the table of the scenario and the same table in the other order.\<close>

theorem fields_sorted_witness:
  "distinct (map fst mock_table) \<and>
   PropertyMapper_fields mock_table = [''isLinkable'', ''name''] \<and>
   distinct (map fst (rev mock_table)) \<and>
   PropertyMapper_fields (rev mock_table) = [''isLinkable'', ''name'']"
  using fields_sorted [of mock_table] fields_sorted [of "rev mock_table"]
  by (simp add: mock_table_def PropertyMapper_fields_def)

text \<open>
  C9. Adding a property under a name that the table already holds writes the error and
  returns the table as it was: the name keeps its first handler, and every lookup gives
  what it gave before.
\<close>

theorem addProperty_twice:
  "map_of m name = Some h0 \<Longrightarrow>
     PropertyMapper_addProperty name h (m, errs) = (m, errs @ [err_duplicate name]) \<and>
     PropertyMapper_get (fst (PropertyMapper_addProperty name h (m, errs))) obj name st = h0 obj st \<and>
     PropertyMapper_get (fst (PropertyMapper_addProperty name h (m, errs))) obj other st =
       PropertyMapper_get m obj other st"
  by (simp add: PropertyMapper_addProperty_def PropertyMapper_get_def)

text \<open>
  A witness of C9: \<open>name\<close> is added to the table of the scenario a second time, with a
  handler that would give None.
\<close>

theorem addProperty_twice_witness:
  "map_of mock_table ''name'' = Some (\<lambda>obj st. (TV_String obj, st)) \<and>
   PropertyMapper_addProperty ''name'' (\<lambda>obj st. (TV_None, st)) (mock_table, []) =
     (mock_table, [err_duplicate ''name'']) \<and>
   PropertyMapper_get
     (fst (PropertyMapper_addProperty ''name'' (\<lambda>obj st. (TV_None, st)) (mock_table, [])))
     ''Foo'' ''name'' 0 =
     (TV_String ''Foo'', 0)"
  using addProperty_twice [where m = mock_table and name = "''name''"
      and ?h0.0 = "\<lambda>obj st. (TV_String obj, st)" and h = "\<lambda>obj st. (TV_None, st)"
      and errs = "[]" and obj = "''Foo''" and st = 0 and other = "''isLinkable''"]
  by (simp add: mock_table_def PropertyMapper_get_def)

section \<open>The documentation cache\<close>

lemma parseDoc_frame:
  "outputFormat (snd (parseDoc ext d f l r s b w)) = outputFormat w \<and>
   cookie (snd (parseDoc ext d f l r s b w)) = cookie w \<and>
   parserRuns (snd (parseDoc ext d f l r s b w)) = parserRuns w + 1"
  by (simp add: parseDoc_def Let_def split: ContextOutputFormat.splits)

lemma parseDoc_snd:
  "parseDoc ext d f l r s b w = (v, w1) \<Longrightarrow>
     outputFormat w1 = outputFormat w \<and> cookie w1 = cookie w \<and> parserRuns w1 = parserRuns w + 1"
  using parseDoc_frame[of ext d f l r s b w] by simp

text \<open>
  The four accessors with a recorded format follow the pattern: \<open>details\<close> always,
  \<open>brief\<close> and \<open>inbodyDocs\<close> when there is text to parse, \<open>example\<close> for the
  page of an example.
\<close>

lemma details_pattern:
  "DefinitionContext_details ext d w =
     cached_text details detailsOutputFormat store_details
       (parseDoc ext d (docFile d) (docLine d) (relPathAsString ext) (documentation d) False) w"
  by (simp add: DefinitionContext_details_def cached_text_def store_details_def
      split: option.splits)

lemma brief_pattern:
  "hasBriefDescription d \<Longrightarrow>
   DefinitionContext_brief ext d w =
     cached_text brief briefOutputFormat store_brief
       (parseDoc ext d (briefFile d) (briefLine d) (relPathAsString ext) (briefDescription d) True) w"
  by (simp add: DefinitionContext_brief_def cached_text_def store_brief_def
      split: option.splits)

lemma inbodyDocs_pattern:
  "inbodyDocumentation d \<noteq> [] \<Longrightarrow>
   DefinitionContext_inbodyDocs ext d w =
     cached_text inbodyDocs inbodyDocsOutputFormat store_inbodyDocs
       (parseDoc ext d (inbodyFile d) (inbodyLine d) (relPathAsString ext)
          (inbodyDocumentation d) False) w"
  by (simp add: DefinitionContext_inbodyDocs_def cached_text_def store_inbodyDocs_def
      split: option.splits)

lemma example_pattern:
  "PageContext_example ext d True w =
     cached_text example exampleOutputFormat store_example
       (parseDoc ext d (docFile d) (docLine d) (relPathAsString ext)
          ([CHR 0x5C] @ ''include '' @ def_name d) False) w"
  by (simp add: PageContext_example_def cached_text_def store_example_def
      split: option.splits)

text \<open>
  What follows from the pattern, for a slot that \<open>store\<close> fills and a computation that
  runs the parser once and leaves the format and the cookie alone.
\<close>

lemma cached_text_miss:
  assumes st: "\<And>v f c. slot (store v f c) = Some v \<and> fmt (store v f c) = f"
    and cp: "\<And>w v w1. compute w = (v, w1) \<Longrightarrow>
               outputFormat w1 = outputFormat w \<and> cookie w1 = cookie w \<and>
               parserRuns w1 = parserRuns w + 1"
    and miss: "slot (cookie w) = None \<or> outputFormat w \<noteq> fmt (cookie w)"
    and r: "cached_text slot fmt store compute w = (v, w')"
  shows "slot (cookie w') = Some v \<and> fmt (cookie w') = outputFormat w \<and>
         outputFormat w' = outputFormat w \<and> parserRuns w' = parserRuns w + 1"
proof -
  obtain u w1 where c: "compute w = (u, w1)" by (cases "compute w")
  from miss r c have "v = u" and w': "w' = w1\<lparr>cookie := store u (outputFormat w1) (cookie w1)\<rparr>"
    by (auto simp: cached_text_def split: option.splits if_splits)
  with cp[OF c] st[of u "outputFormat w1" "cookie w1"] show ?thesis by simp
qed

lemma cached_text_hit:
  "slot (cookie w) = Some v0 \<Longrightarrow> outputFormat w = fmt (cookie w) \<Longrightarrow>
     cached_text slot fmt store compute w = (v0, w)"
  by (simp add: cached_text_def)

lemma cached_text_requests:
  assumes st: "\<And>v f c. slot (store v f c) = Some v \<and> fmt (store v f c) = f"
    and cp: "\<And>w v w1. compute w = (v, w1) \<Longrightarrow>
               outputFormat w1 = outputFormat w \<and> cookie w1 = cookie w \<and>
               parserRuns w1 = parserRuns w + 1"
    and unset: "slot (cookie w) = None"
  shows "(\<exists>v. fst (requests (cached_text slot fmt store compute) [f, f] w) = [v, v]) \<and>
         parserRuns (snd (requests (cached_text slot fmt store compute) [f, f] w)) = parserRuns w + 1 \<and>
         (f \<noteq> f2 \<longrightarrow>
            parserRuns (snd (requests (cached_text slot fmt store compute) [f, f2] w)) =
              parserRuns w + 2)"
proof -
  let ?acc = "cached_text slot fmt store compute"
  obtain v1 w1 where r1: "?acc (w\<lparr>outputFormat := f\<rparr>) = (v1, w1)"
    by (cases "?acc (w\<lparr>outputFormat := f\<rparr>)")
  have m1: "slot (cookie (w\<lparr>outputFormat := f\<rparr>)) = None \<or>
            outputFormat (w\<lparr>outputFormat := f\<rparr>) \<noteq> fmt (cookie (w\<lparr>outputFormat := f\<rparr>))"
    using unset by simp
  from cached_text_miss[of slot store fmt compute, OF st cp m1 r1]
  have s1: "slot (cookie w1) = Some v1" "fmt (cookie w1) = f" "outputFormat w1 = f"
    "parserRuns w1 = parserRuns w + 1" by simp_all
  have same: "w1\<lparr>outputFormat := f\<rparr> = w1" using s1(3) by simp
  have r2: "?acc (w1\<lparr>outputFormat := f\<rparr>) = (v1, w1)"
    unfolding same by (rule cached_text_hit) (simp_all add: s1)
  have a: "requests ?acc [f, f] w = ([v1, v1], w1)" using r1 r2 by simp
  have b: "f \<noteq> f2 \<Longrightarrow> parserRuns (snd (requests ?acc [f, f2] w)) = parserRuns w + 2"
  proof -
    assume ne: "f \<noteq> f2"
    obtain v2 w2 where r3: "?acc (w1\<lparr>outputFormat := f2\<rparr>) = (v2, w2)"
      by (cases "?acc (w1\<lparr>outputFormat := f2\<rparr>)")
    have m2: "slot (cookie (w1\<lparr>outputFormat := f2\<rparr>)) = None \<or>
              outputFormat (w1\<lparr>outputFormat := f2\<rparr>) \<noteq> fmt (cookie (w1\<lparr>outputFormat := f2\<rparr>))"
      using ne s1 by simp
    from cached_text_miss[of slot store fmt compute, OF st cp m2 r3]
    have "parserRuns w2 = parserRuns w1 + 1" by simp
    with r1 r3 s1 show ?thesis by simp
  qed
  from a b s1 show ?thesis by simp
qed

lemma store_laws:
  "details (store_details v f c) = Some v \<and> detailsOutputFormat (store_details v f c) = f"
  "brief (store_brief v f c) = Some v \<and> briefOutputFormat (store_brief v f c) = f"
  "inbodyDocs (store_inbodyDocs v f c) = Some v \<and> inbodyDocsOutputFormat (store_inbodyDocs v f c) = f"
  "example (store_example v f c) = Some v \<and> exampleOutputFormat (store_example v f c) = f"
  by (simp_all add: store_details_def store_brief_def store_inbodyDocs_def store_example_def)

lemma details_requests:
  assumes "details (cookie w) = None"
  shows "(\<exists>v. fst (requests (DefinitionContext_details ext d) [f, f] w) = [v, v]) \<and>
         parserRuns (snd (requests (DefinitionContext_details ext d) [f, f] w)) = parserRuns w + 1 \<and>
         (f \<noteq> f2 \<longrightarrow>
            parserRuns (snd (requests (DefinitionContext_details ext d) [f, f2] w)) =
              parserRuns w + 2)"
proof -
  have eq: "DefinitionContext_details ext d =
      cached_text details detailsOutputFormat store_details
        (parseDoc ext d (docFile d) (docLine d) (relPathAsString ext) (documentation d) False)"
    by (rule ext) (rule details_pattern)
  show ?thesis unfolding eq
    by (rule cached_text_requests[OF store_laws(1) parseDoc_snd assms])
qed

lemma brief_requests:
  assumes "hasBriefDescription d" and "brief (cookie w) = None"
  shows "(\<exists>v. fst (requests (DefinitionContext_brief ext d) [f, f] w) = [v, v]) \<and>
         parserRuns (snd (requests (DefinitionContext_brief ext d) [f, f] w)) = parserRuns w + 1 \<and>
         (f \<noteq> f2 \<longrightarrow>
            parserRuns (snd (requests (DefinitionContext_brief ext d) [f, f2] w)) =
              parserRuns w + 2)"
proof -
  have eq: "DefinitionContext_brief ext d =
      cached_text brief briefOutputFormat store_brief
        (parseDoc ext d (briefFile d) (briefLine d) (relPathAsString ext) (briefDescription d) True)"
    by (rule ext) (rule brief_pattern[OF assms(1)])
  show ?thesis unfolding eq
    by (rule cached_text_requests[OF store_laws(2) parseDoc_snd assms(2)])
qed

lemma inbodyDocs_requests:
  assumes "inbodyDocumentation d \<noteq> []" and "inbodyDocs (cookie w) = None"
  shows "(\<exists>v. fst (requests (DefinitionContext_inbodyDocs ext d) [f, f] w) = [v, v]) \<and>
         parserRuns (snd (requests (DefinitionContext_inbodyDocs ext d) [f, f] w)) = parserRuns w + 1 \<and>
         (f \<noteq> f2 \<longrightarrow>
            parserRuns (snd (requests (DefinitionContext_inbodyDocs ext d) [f, f2] w)) =
              parserRuns w + 2)"
proof -
  have eq: "DefinitionContext_inbodyDocs ext d =
      cached_text inbodyDocs inbodyDocsOutputFormat store_inbodyDocs
        (parseDoc ext d (inbodyFile d) (inbodyLine d) (relPathAsString ext)
           (inbodyDocumentation d) False)"
    by (rule ext) (rule inbodyDocs_pattern[OF assms(1)])
  show ?thesis unfolding eq
    by (rule cached_text_requests[OF store_laws(3) parseDoc_snd assms(2)])
qed

lemma example_requests:
  assumes "example (cookie w) = None"
  shows "(\<exists>v. fst (requests (PageContext_example ext d True) [f, f] w) = [v, v]) \<and>
         parserRuns (snd (requests (PageContext_example ext d True) [f, f] w)) = parserRuns w + 1 \<and>
         (f \<noteq> f2 \<longrightarrow>
            parserRuns (snd (requests (PageContext_example ext d True) [f, f2] w)) =
              parserRuns w + 2)"
proof -
  have eq: "PageContext_example ext d True =
      cached_text example exampleOutputFormat store_example
        (parseDoc ext d (docFile d) (docLine d) (relPathAsString ext)
           ([CHR 0x5C] @ ''include '' @ def_name d) False)"
    by (rule ext) (rule example_pattern)
  show ?thesis unfolding eq
    by (rule cached_text_requests[OF store_laws(4) parseDoc_snd assms])
qed

text \<open>Without text to parse, \<open>brief\<close> and \<open>inbodyDocs\<close> store the empty string.\<close>

lemma brief_no_description:
  assumes "\<not> hasBriefDescription d"
    and "brief (cookie w) = None \<or> brief (cookie w) = Some (TV_String [])"
    and "DefinitionContext_brief ext d w = (v, w')"
  shows "v = TV_String [] \<and> brief (cookie w') = Some (TV_String []) \<and> parserRuns w' = parserRuns w"
  using assms by (auto simp: DefinitionContext_brief_def split: if_splits)

lemma brief_requests_no_description:
  assumes "\<not> hasBriefDescription d"
  shows "brief (cookie w) = None \<or> brief (cookie w) = Some (TV_String []) \<Longrightarrow>
     fst (requests (DefinitionContext_brief ext d) fs w) = replicate (length fs) (TV_String []) \<and>
     parserRuns (snd (requests (DefinitionContext_brief ext d) fs w)) = parserRuns w"
proof (induction fs arbitrary: w)
  case Nil
  then show ?case by simp
next
  case (Cons f fs)
  obtain v w1 where r: "DefinitionContext_brief ext d (w\<lparr>outputFormat := f\<rparr>) = (v, w1)"
    by (cases "DefinitionContext_brief ext d (w\<lparr>outputFormat := f\<rparr>)")
  from brief_no_description[OF assms _ r] Cons.prems
  have s: "v = TV_String []" "brief (cookie w1) = Some (TV_String [])" "parserRuns w1 = parserRuns w"
    by simp_all
  from Cons.IH[of w1] s
  have "fst (requests (DefinitionContext_brief ext d) fs w1) = replicate (length fs) (TV_String [])"
    "parserRuns (snd (requests (DefinitionContext_brief ext d) fs w1)) = parserRuns w"
    by simp_all
  with r s show ?case by (simp add: split_beta)
qed

lemma inbodyDocs_no_text:
  assumes "inbodyDocumentation d = []"
    and "inbodyDocs (cookie w) = None \<or> inbodyDocs (cookie w) = Some (TV_String [])"
    and "DefinitionContext_inbodyDocs ext d w = (v, w')"
  shows "v = TV_String [] \<and> inbodyDocs (cookie w') = Some (TV_String []) \<and>
         parserRuns w' = parserRuns w"
  using assms by (auto simp: DefinitionContext_inbodyDocs_def split: if_splits)

lemma inbodyDocs_requests_no_text:
  assumes "inbodyDocumentation d = []"
  shows "inbodyDocs (cookie w) = None \<or> inbodyDocs (cookie w) = Some (TV_String []) \<Longrightarrow>
     fst (requests (DefinitionContext_inbodyDocs ext d) fs w) = replicate (length fs) (TV_String []) \<and>
     parserRuns (snd (requests (DefinitionContext_inbodyDocs ext d) fs w)) = parserRuns w"
proof (induction fs arbitrary: w)
  case Nil
  then show ?case by simp
next
  case (Cons f fs)
  obtain v w1 where r: "DefinitionContext_inbodyDocs ext d (w\<lparr>outputFormat := f\<rparr>) = (v, w1)"
    by (cases "DefinitionContext_inbodyDocs ext d (w\<lparr>outputFormat := f\<rparr>)")
  from inbodyDocs_no_text[OF assms _ r] Cons.prems
  have s: "v = TV_String []" "inbodyDocs (cookie w1) = Some (TV_String [])"
    "parserRuns w1 = parserRuns w"
    by simp_all
  from Cons.IH[of w1] s
  have "fst (requests (DefinitionContext_inbodyDocs ext d) fs w1) =
          replicate (length fs) (TV_String [])"
    "parserRuns (snd (requests (DefinitionContext_inbodyDocs ext d) fs w1)) = parserRuns w"
    by simp_all
  with r s show ?case by (simp add: split_beta)
qed

text \<open>
  C6 as stated fails in two ways. The accessor \<open>brief\<close> of a symbol without a brief
  description finds its slot empty and returns the empty string without a run of the parser
  and without recording the format. And the slots \<open>paramDocs\<close> of a member and
  \<open>sources\<close> of a file have no recorded format: after the request of the HTML pass the
  request of the LaTeX pass returns the HTML text again, and the parser has run once, not
  twice.
\<close>

theorem text_cache_pattern_counterexample:
  "brief (cookie html_world) = None \<and>
   DefinitionContext_brief echo_parser foo_def html_world =
     (TV_String [], html_world\<lparr>cookie := Cachable_new\<lparr>brief := Some (TV_String [])\<rparr>\<rparr>) \<and>
   parserRuns (snd (DefinitionContext_brief echo_parser foo_def html_world)) = 0 \<and>
   briefOutputFormat (cookie (snd (DefinitionContext_brief echo_parser foo_def html_world))) =
     ContextOutputFormat_Unspecified \<and>
   paramDocs (cookie html_world) = None \<and>
   fst (requests (MemberContext_paramDocs echo_parser foo_def foo_arguments)
          [ContextOutputFormat_Html, ContextOutputFormat_Latex] html_world) =
     [TV_String ''<p>@param x the x</p>'', TV_String ''<p>@param x the x</p>''] \<and>
   parserRuns (snd (requests (MemberContext_paramDocs echo_parser foo_def foo_arguments)
          [ContextOutputFormat_Html, ContextOutputFormat_Latex] html_world)) = 1 \<and>
   sources (cookie html_world) = None \<and>
   fst (requests (FileContext_sources echo_parser foo_file)
          [ContextOutputFormat_Html, ContextOutputFormat_Latex] html_world) =
     [TV_String ''<pre>/src/foo.cpp</pre>'', TV_String ''<pre>/src/foo.cpp</pre>'']"
proof -
  have b: "brief (cookie html_world) = None \<and>
     DefinitionContext_brief echo_parser foo_def html_world =
       (TV_String [], html_world\<lparr>cookie := Cachable_new\<lparr>brief := Some (TV_String [])\<rparr>\<rparr>) \<and>
     parserRuns (snd (DefinitionContext_brief echo_parser foo_def html_world)) = 0 \<and>
     briefOutputFormat (cookie (snd (DefinitionContext_brief echo_parser foo_def html_world))) =
       ContextOutputFormat_Unspecified"
    by (simp add: html_world_def foo_def_def Cachable_new_def DefinitionContext_brief_def)
  have p: "paramDocs (cookie html_world) = None \<and>
     fst (requests (MemberContext_paramDocs echo_parser foo_def foo_arguments)
            [ContextOutputFormat_Html, ContextOutputFormat_Latex] html_world) =
       [TV_String ''<p>@param x the x</p>'', TV_String ''<p>@param x the x</p>''] \<and>
     parserRuns (snd (requests (MemberContext_paramDocs echo_parser foo_def foo_arguments)
            [ContextOutputFormat_Html, ContextOutputFormat_Latex] html_world)) = 1"
    by (simp add: html_world_def echo_parser_def foo_def_def foo_arguments_def Cachable_new_def
        MemberContext_paramDocs_def parseDoc_def relPathAsString_def)
  have s: "sources (cookie html_world) = None \<and>
     fst (requests (FileContext_sources echo_parser foo_file)
            [ContextOutputFormat_Html, ContextOutputFormat_Latex] html_world) =
       [TV_String ''<pre>/src/foo.cpp</pre>'', TV_String ''<pre>/src/foo.cpp</pre>'']"
    by (simp add: html_world_def echo_parser_def foo_file_def Cachable_new_def
        FileContext_sources_def parseCode_def relPathAsString_def)
  from b p s show ?thesis by blast
qed

text \<open>
  C6, amended. The accessors of cached text whose slot has a recorded output format are
  \<open>details\<close>, \<open>brief\<close>, \<open>inbodyDocs\<close> and \<open>example\<close>. The accessor \<open>details\<close> of
  every symbol, \<open>brief\<close> of a symbol with a brief description, \<open>inbodyDocs\<close> of a symbol
  with documentation in its body and \<open>example\<close> of the page of an example follow the
  pattern: when the slot is empty, or was filled for another output format than the current
  one, the text is parsed (one run of the parser) and stored with the current format;
  otherwise the stored value is returned and nothing changes. So, starting from an empty
  slot, two requests in one format give the same value and run the parser once, and a
  request in each of two different formats runs it twice. For a symbol without a brief
  description, and likewise for a symbol without documentation in its body, every request
  that starts from an empty slot or from a slot with the empty string gives the empty String
  value and the parser does not run; for a page that is not an example, \<open>example\<close> gives the
  empty String value and changes nothing.
\<close>

theorem text_cache_pattern:
  "DefinitionContext_details ext d w =
     cached_text details detailsOutputFormat store_details
       (parseDoc ext d (docFile d) (docLine d) (relPathAsString ext) (documentation d) False) w \<and>
   (hasBriefDescription d \<longrightarrow>
      DefinitionContext_brief ext d w =
        cached_text brief briefOutputFormat store_brief
          (parseDoc ext d (briefFile d) (briefLine d) (relPathAsString ext)
             (briefDescription d) True) w) \<and>
   (inbodyDocumentation d \<noteq> [] \<longrightarrow>
      DefinitionContext_inbodyDocs ext d w =
        cached_text inbodyDocs inbodyDocsOutputFormat store_inbodyDocs
          (parseDoc ext d (inbodyFile d) (inbodyLine d) (relPathAsString ext)
             (inbodyDocumentation d) False) w) \<and>
   PageContext_example ext d True w =
     cached_text example exampleOutputFormat store_example
       (parseDoc ext d (docFile d) (docLine d) (relPathAsString ext)
          ([CHR 0x5C] @ ''include '' @ def_name d) False) w \<and>
   parserRuns (snd (parseDoc ext d fileName lineNr relPath docStr isBrief w)) = parserRuns w + 1 \<and>
   (details (cookie w) = None \<longrightarrow>
      (\<exists>v. fst (requests (DefinitionContext_details ext d) [f, f] w) = [v, v]) \<and>
      parserRuns (snd (requests (DefinitionContext_details ext d) [f, f] w)) = parserRuns w + 1 \<and>
      (f \<noteq> f2 \<longrightarrow>
         parserRuns (snd (requests (DefinitionContext_details ext d) [f, f2] w)) =
           parserRuns w + 2)) \<and>
   (hasBriefDescription d \<and> brief (cookie w) = None \<longrightarrow>
      (\<exists>v. fst (requests (DefinitionContext_brief ext d) [f, f] w) = [v, v]) \<and>
      parserRuns (snd (requests (DefinitionContext_brief ext d) [f, f] w)) = parserRuns w + 1 \<and>
      (f \<noteq> f2 \<longrightarrow>
         parserRuns (snd (requests (DefinitionContext_brief ext d) [f, f2] w)) =
           parserRuns w + 2)) \<and>
   (inbodyDocumentation d \<noteq> [] \<and> inbodyDocs (cookie w) = None \<longrightarrow>
      (\<exists>v. fst (requests (DefinitionContext_inbodyDocs ext d) [f, f] w) = [v, v]) \<and>
      parserRuns (snd (requests (DefinitionContext_inbodyDocs ext d) [f, f] w)) = parserRuns w + 1 \<and>
      (f \<noteq> f2 \<longrightarrow>
         parserRuns (snd (requests (DefinitionContext_inbodyDocs ext d) [f, f2] w)) =
           parserRuns w + 2)) \<and>
   (example (cookie w) = None \<longrightarrow>
      (\<exists>v. fst (requests (PageContext_example ext d True) [f, f] w) = [v, v]) \<and>
      parserRuns (snd (requests (PageContext_example ext d True) [f, f] w)) = parserRuns w + 1 \<and>
      (f \<noteq> f2 \<longrightarrow>
         parserRuns (snd (requests (PageContext_example ext d True) [f, f2] w)) =
           parserRuns w + 2)) \<and>
   (\<not> hasBriefDescription d \<and>
    (brief (cookie w) = None \<or> brief (cookie w) = Some (TV_String [])) \<longrightarrow>
      fst (requests (DefinitionContext_brief ext d) fs w) = replicate (length fs) (TV_String []) \<and>
      parserRuns (snd (requests (DefinitionContext_brief ext d) fs w)) = parserRuns w) \<and>
   (inbodyDocumentation d = [] \<and>
    (inbodyDocs (cookie w) = None \<or> inbodyDocs (cookie w) = Some (TV_String [])) \<longrightarrow>
      fst (requests (DefinitionContext_inbodyDocs ext d) fs w) =
        replicate (length fs) (TV_String []) \<and>
      parserRuns (snd (requests (DefinitionContext_inbodyDocs ext d) fs w)) = parserRuns w) \<and>
   PageContext_example ext d False w = (TV_String [], w)"
proof -
  have ne: "PageContext_example ext d False w = (TV_String [], w)"
    by (simp add: PageContext_example_def)
  show ?thesis
    using details_pattern[of ext d w] brief_pattern[of d ext w] inbodyDocs_pattern[of d ext w]
      example_pattern[of ext d w]
      parseDoc_frame[of ext d fileName lineNr relPath docStr isBrief w]
      details_requests[of w ext d f f2] brief_requests[of d w ext f f2]
      inbodyDocs_requests[of d w ext f f2] example_requests[of w ext d f f2]
      brief_requests_no_description[of d w ext fs]
      inbodyDocs_requests_no_text[of d w ext fs] ne
    by blast
qed

text \<open>
  A witness of the amended C6, from a new cookie in the HTML pass. For \<open>details\<close> and
  \<open>inbodyDocs\<close> of the symbol \<open>Foo\<close>, for \<open>brief\<close> of the symbol \<open>Bar\<close>, which has
  a brief description, and for \<open>example\<close> of the example page: two HTML requests give the
  same text and one run of the parser, an HTML request and a LaTeX request give two runs and
  the text of each format. For \<open>brief\<close> of \<open>Foo\<close> and \<open>inbodyDocs\<close> of \<open>Bar\<close>,
  which have no such text, three requests give the empty string three times without a run
  of the parser; and \<open>example\<close> of a page that is not an example gives the empty string.
\<close>

theorem text_cache_pattern_witness:
  "details (cookie html_world) = None \<and>
   ContextOutputFormat_Html \<noteq> ContextOutputFormat_Latex \<and>
   (\<exists>v. fst (requests (DefinitionContext_details echo_parser foo_def)
             [ContextOutputFormat_Html, ContextOutputFormat_Html] html_world) = [v, v]) \<and>
   parserRuns (snd (requests (DefinitionContext_details echo_parser foo_def)
             [ContextOutputFormat_Html, ContextOutputFormat_Html] html_world)) = 1 \<and>
   parserRuns (snd (requests (DefinitionContext_details echo_parser foo_def)
             [ContextOutputFormat_Html, ContextOutputFormat_Latex] html_world)) = 2 \<and>
   fst (requests (DefinitionContext_details echo_parser foo_def)
          [ContextOutputFormat_Html, ContextOutputFormat_Latex] html_world) =
     [TV_String ''<p>Details of Foo.</p>'', TV_String ''{Details of Foo.}''] \<and>
   inbodyDocumentation foo_def \<noteq> [] \<and> inbodyDocs (cookie html_world) = None \<and>
   (\<exists>v. fst (requests (DefinitionContext_inbodyDocs echo_parser foo_def)
             [ContextOutputFormat_Html, ContextOutputFormat_Html] html_world) = [v, v]) \<and>
   parserRuns (snd (requests (DefinitionContext_inbodyDocs echo_parser foo_def)
             [ContextOutputFormat_Html, ContextOutputFormat_Html] html_world)) = 1 \<and>
   parserRuns (snd (requests (DefinitionContext_inbodyDocs echo_parser foo_def)
             [ContextOutputFormat_Html, ContextOutputFormat_Latex] html_world)) = 2 \<and>
   fst (requests (DefinitionContext_inbodyDocs echo_parser foo_def)
          [ContextOutputFormat_Html, ContextOutputFormat_Latex] html_world) =
     [TV_String ''<p>Inside Foo.</p>'', TV_String ''{Inside Foo.}''] \<and>
   hasBriefDescription bar_def \<and> brief (cookie html_world) = None \<and>
   DefinitionContext_brief echo_parser bar_def html_world =
     cached_text brief briefOutputFormat store_brief
       (parseDoc echo_parser bar_def (briefFile bar_def) (briefLine bar_def)
          (relPathAsString echo_parser) (briefDescription bar_def) True) html_world \<and>
   (\<exists>v. fst (requests (DefinitionContext_brief echo_parser bar_def)
             [ContextOutputFormat_Html, ContextOutputFormat_Html] html_world) = [v, v]) \<and>
   parserRuns (snd (requests (DefinitionContext_brief echo_parser bar_def)
             [ContextOutputFormat_Html, ContextOutputFormat_Html] html_world)) = 1 \<and>
   parserRuns (snd (requests (DefinitionContext_brief echo_parser bar_def)
             [ContextOutputFormat_Html, ContextOutputFormat_Latex] html_world)) = 2 \<and>
   fst (requests (DefinitionContext_brief echo_parser bar_def)
          [ContextOutputFormat_Html, ContextOutputFormat_Latex] html_world) =
     [TV_String ''<p>Brief of Bar.</p>'', TV_String ''{Brief of Bar.}''] \<and>
   example (cookie html_world) = None \<and>
   (\<exists>v. fst (requests (PageContext_example echo_parser demo_page True)
             [ContextOutputFormat_Html, ContextOutputFormat_Html] html_world) = [v, v]) \<and>
   parserRuns (snd (requests (PageContext_example echo_parser demo_page True)
             [ContextOutputFormat_Html, ContextOutputFormat_Html] html_world)) = 1 \<and>
   parserRuns (snd (requests (PageContext_example echo_parser demo_page True)
             [ContextOutputFormat_Html, ContextOutputFormat_Latex] html_world)) = 2 \<and>
   fst (requests (PageContext_example echo_parser demo_page True)
          [ContextOutputFormat_Html, ContextOutputFormat_Latex] html_world) =
     [TV_String (''<p>'' @ [CHR 0x5C] @ ''include demo.cpp</p>''),
      TV_String (''{'' @ [CHR 0x5C] @ ''include demo.cpp}'')] \<and>
   \<not> hasBriefDescription foo_def \<and>
   fst (requests (DefinitionContext_brief echo_parser foo_def)
          [ContextOutputFormat_Html, ContextOutputFormat_Latex, ContextOutputFormat_Html]
          html_world) = [TV_String [], TV_String [], TV_String []] \<and>
   parserRuns (snd (requests (DefinitionContext_brief echo_parser foo_def)
          [ContextOutputFormat_Html, ContextOutputFormat_Latex, ContextOutputFormat_Html]
          html_world)) = 0 \<and>
   inbodyDocumentation bar_def = [] \<and>
   fst (requests (DefinitionContext_inbodyDocs echo_parser bar_def)
          [ContextOutputFormat_Html, ContextOutputFormat_Latex, ContextOutputFormat_Html]
          html_world) = [TV_String [], TV_String [], TV_String []] \<and>
   parserRuns (snd (requests (DefinitionContext_inbodyDocs echo_parser bar_def)
          [ContextOutputFormat_Html, ContextOutputFormat_Latex, ContextOutputFormat_Html]
          html_world)) = 0 \<and>
   PageContext_example echo_parser demo_page False html_world = (TV_String [], html_world)"
proof -
  have u: "details (cookie html_world) = None" "inbodyDocs (cookie html_world) = None"
    "brief (cookie html_world) = None" "example (cookie html_world) = None"
    "parserRuns html_world = 0"
    by (simp_all add: html_world_def Cachable_new_def)
  have h: "inbodyDocumentation foo_def \<noteq> []" "\<not> hasBriefDescription foo_def"
    "hasBriefDescription bar_def" "inbodyDocumentation bar_def = []"
    by (simp_all add: foo_def_def bar_def_def)
  have ne: "ContextOutputFormat_Html \<noteq> ContextOutputFormat_Latex" by simp
  have len: "replicate (length [ContextOutputFormat_Html, ContextOutputFormat_Latex,
        ContextOutputFormat_Html]) (TV_String []) = [TV_String [], TV_String [], TV_String []]"
    by (simp add: eval_nat_numeral)
  note foo = text_cache_pattern [where w = html_world and ext = echo_parser and d = foo_def
      and f = ContextOutputFormat_Html and ?f2.0 = ContextOutputFormat_Latex
      and fs = "[ContextOutputFormat_Html, ContextOutputFormat_Latex, ContextOutputFormat_Html]"
      and fileName = "[]" and lineNr = 0 and relPath = "[]" and docStr = "[]" and isBrief = False]
  note bar = text_cache_pattern [where w = html_world and ext = echo_parser and d = bar_def
      and f = ContextOutputFormat_Html and ?f2.0 = ContextOutputFormat_Latex
      and fs = "[ContextOutputFormat_Html, ContextOutputFormat_Latex, ContextOutputFormat_Html]"
      and fileName = "[]" and lineNr = 0 and relPath = "[]" and docStr = "[]" and isBrief = False]
  note demo = text_cache_pattern [where w = html_world and ext = echo_parser and d = demo_page
      and f = ContextOutputFormat_Html and ?f2.0 = ContextOutputFormat_Latex
      and fs = "[ContextOutputFormat_Html, ContextOutputFormat_Latex, ContextOutputFormat_Html]"
      and fileName = "[]" and lineNr = 0 and relPath = "[]" and docStr = "[]" and isBrief = False]
  from foo u(1) ne
  have d1: "(\<exists>v. fst (requests (DefinitionContext_details echo_parser foo_def)
             [ContextOutputFormat_Html, ContextOutputFormat_Html] html_world) = [v, v])"
    and d2: "parserRuns (snd (requests (DefinitionContext_details echo_parser foo_def)
             [ContextOutputFormat_Html, ContextOutputFormat_Html] html_world)) =
               parserRuns html_world + 1"
    and d3: "parserRuns (snd (requests (DefinitionContext_details echo_parser foo_def)
             [ContextOutputFormat_Html, ContextOutputFormat_Latex] html_world)) =
               parserRuns html_world + 2"
    by blast+
  from foo u(2) h(1) ne
  have i1: "(\<exists>v. fst (requests (DefinitionContext_inbodyDocs echo_parser foo_def)
             [ContextOutputFormat_Html, ContextOutputFormat_Html] html_world) = [v, v])"
    and i2: "parserRuns (snd (requests (DefinitionContext_inbodyDocs echo_parser foo_def)
             [ContextOutputFormat_Html, ContextOutputFormat_Html] html_world)) =
               parserRuns html_world + 1"
    and i3: "parserRuns (snd (requests (DefinitionContext_inbodyDocs echo_parser foo_def)
             [ContextOutputFormat_Html, ContextOutputFormat_Latex] html_world)) =
               parserRuns html_world + 2"
    by blast+
  from bar u(3) h(3) ne
  have b0: "DefinitionContext_brief echo_parser bar_def html_world =
     cached_text brief briefOutputFormat store_brief
       (parseDoc echo_parser bar_def (briefFile bar_def) (briefLine bar_def)
          (relPathAsString echo_parser) (briefDescription bar_def) True) html_world"
    and b1: "(\<exists>v. fst (requests (DefinitionContext_brief echo_parser bar_def)
             [ContextOutputFormat_Html, ContextOutputFormat_Html] html_world) = [v, v])"
    and b2: "parserRuns (snd (requests (DefinitionContext_brief echo_parser bar_def)
             [ContextOutputFormat_Html, ContextOutputFormat_Html] html_world)) =
               parserRuns html_world + 1"
    and b3: "parserRuns (snd (requests (DefinitionContext_brief echo_parser bar_def)
             [ContextOutputFormat_Html, ContextOutputFormat_Latex] html_world)) =
               parserRuns html_world + 2"
    by blast+
  from demo u(4) ne
  have e1: "(\<exists>v. fst (requests (PageContext_example echo_parser demo_page True)
             [ContextOutputFormat_Html, ContextOutputFormat_Html] html_world) = [v, v])"
    and e2: "parserRuns (snd (requests (PageContext_example echo_parser demo_page True)
             [ContextOutputFormat_Html, ContextOutputFormat_Html] html_world)) =
               parserRuns html_world + 1"
    and e3: "parserRuns (snd (requests (PageContext_example echo_parser demo_page True)
             [ContextOutputFormat_Html, ContextOutputFormat_Latex] html_world)) =
               parserRuns html_world + 2"
    and e4: "PageContext_example echo_parser demo_page False html_world =
               (TV_String [], html_world)"
    by blast+
  from foo u(3) h(2)
  have n1: "fst (requests (DefinitionContext_brief echo_parser foo_def)
          [ContextOutputFormat_Html, ContextOutputFormat_Latex, ContextOutputFormat_Html]
          html_world) =
        replicate (length [ContextOutputFormat_Html, ContextOutputFormat_Latex,
          ContextOutputFormat_Html]) (TV_String [])"
    and n2: "parserRuns (snd (requests (DefinitionContext_brief echo_parser foo_def)
          [ContextOutputFormat_Html, ContextOutputFormat_Latex, ContextOutputFormat_Html]
          html_world)) = parserRuns html_world"
    by blast+
  from bar u(2) h(4)
  have m1: "fst (requests (DefinitionContext_inbodyDocs echo_parser bar_def)
          [ContextOutputFormat_Html, ContextOutputFormat_Latex, ContextOutputFormat_Html]
          html_world) =
        replicate (length [ContextOutputFormat_Html, ContextOutputFormat_Latex,
          ContextOutputFormat_Html]) (TV_String [])"
    and m2: "parserRuns (snd (requests (DefinitionContext_inbodyDocs echo_parser bar_def)
          [ContextOutputFormat_Html, ContextOutputFormat_Latex, ContextOutputFormat_Html]
          html_world)) = parserRuns html_world"
    by blast+
  have vd: "fst (requests (DefinitionContext_details echo_parser foo_def)
          [ContextOutputFormat_Html, ContextOutputFormat_Latex] html_world) =
     [TV_String ''<p>Details of Foo.</p>'', TV_String ''{Details of Foo.}'']"
    by (simp add: html_world_def echo_parser_def foo_def_def Cachable_new_def
        DefinitionContext_details_def parseDoc_def relPathAsString_def)
  have vi: "fst (requests (DefinitionContext_inbodyDocs echo_parser foo_def)
          [ContextOutputFormat_Html, ContextOutputFormat_Latex] html_world) =
     [TV_String ''<p>Inside Foo.</p>'', TV_String ''{Inside Foo.}'']"
    by (simp add: html_world_def echo_parser_def foo_def_def Cachable_new_def
        DefinitionContext_inbodyDocs_def parseDoc_def relPathAsString_def)
  have vb: "fst (requests (DefinitionContext_brief echo_parser bar_def)
          [ContextOutputFormat_Html, ContextOutputFormat_Latex] html_world) =
     [TV_String ''<p>Brief of Bar.</p>'', TV_String ''{Brief of Bar.}'']"
    by (simp add: html_world_def echo_parser_def bar_def_def Cachable_new_def
        DefinitionContext_brief_def parseDoc_def relPathAsString_def)
  have ve: "fst (requests (PageContext_example echo_parser demo_page True)
          [ContextOutputFormat_Html, ContextOutputFormat_Latex] html_world) =
     [TV_String (''<p>'' @ [CHR 0x5C] @ ''include demo.cpp</p>''),
      TV_String (''{'' @ [CHR 0x5C] @ ''include demo.cpp}'')]"
    by (simp add: html_world_def echo_parser_def demo_page_def Cachable_new_def
        PageContext_example_def parseDoc_def relPathAsString_def)
  have A: "details (cookie html_world) = None \<and>
     ContextOutputFormat_Html \<noteq> ContextOutputFormat_Latex \<and>
     (\<exists>v. fst (requests (DefinitionContext_details echo_parser foo_def)
               [ContextOutputFormat_Html, ContextOutputFormat_Html] html_world) = [v, v]) \<and>
     parserRuns (snd (requests (DefinitionContext_details echo_parser foo_def)
               [ContextOutputFormat_Html, ContextOutputFormat_Html] html_world)) = 1 \<and>
     parserRuns (snd (requests (DefinitionContext_details echo_parser foo_def)
               [ContextOutputFormat_Html, ContextOutputFormat_Latex] html_world)) = 2 \<and>
     fst (requests (DefinitionContext_details echo_parser foo_def)
            [ContextOutputFormat_Html, ContextOutputFormat_Latex] html_world) =
       [TV_String ''<p>Details of Foo.</p>'', TV_String ''{Details of Foo.}'']"
    using u(1) ne d1 d2 d3 vd unfolding u(5) by simp
  have B: "inbodyDocumentation foo_def \<noteq> [] \<and> inbodyDocs (cookie html_world) = None \<and>
     (\<exists>v. fst (requests (DefinitionContext_inbodyDocs echo_parser foo_def)
               [ContextOutputFormat_Html, ContextOutputFormat_Html] html_world) = [v, v]) \<and>
     parserRuns (snd (requests (DefinitionContext_inbodyDocs echo_parser foo_def)
               [ContextOutputFormat_Html, ContextOutputFormat_Html] html_world)) = 1 \<and>
     parserRuns (snd (requests (DefinitionContext_inbodyDocs echo_parser foo_def)
               [ContextOutputFormat_Html, ContextOutputFormat_Latex] html_world)) = 2 \<and>
     fst (requests (DefinitionContext_inbodyDocs echo_parser foo_def)
            [ContextOutputFormat_Html, ContextOutputFormat_Latex] html_world) =
       [TV_String ''<p>Inside Foo.</p>'', TV_String ''{Inside Foo.}'']"
    using u(2) h(1) i1 i2 i3 vi unfolding u(5) by simp
  have C: "hasBriefDescription bar_def \<and> brief (cookie html_world) = None \<and>
     DefinitionContext_brief echo_parser bar_def html_world =
       cached_text brief briefOutputFormat store_brief
         (parseDoc echo_parser bar_def (briefFile bar_def) (briefLine bar_def)
            (relPathAsString echo_parser) (briefDescription bar_def) True) html_world \<and>
     (\<exists>v. fst (requests (DefinitionContext_brief echo_parser bar_def)
               [ContextOutputFormat_Html, ContextOutputFormat_Html] html_world) = [v, v]) \<and>
     parserRuns (snd (requests (DefinitionContext_brief echo_parser bar_def)
               [ContextOutputFormat_Html, ContextOutputFormat_Html] html_world)) = 1 \<and>
     parserRuns (snd (requests (DefinitionContext_brief echo_parser bar_def)
               [ContextOutputFormat_Html, ContextOutputFormat_Latex] html_world)) = 2 \<and>
     fst (requests (DefinitionContext_brief echo_parser bar_def)
            [ContextOutputFormat_Html, ContextOutputFormat_Latex] html_world) =
       [TV_String ''<p>Brief of Bar.</p>'', TV_String ''{Brief of Bar.}'']"
    using u(3) h(3) b0 b1 b2 b3 vb unfolding u(5) by simp
  have D: "example (cookie html_world) = None \<and>
     (\<exists>v. fst (requests (PageContext_example echo_parser demo_page True)
               [ContextOutputFormat_Html, ContextOutputFormat_Html] html_world) = [v, v]) \<and>
     parserRuns (snd (requests (PageContext_example echo_parser demo_page True)
               [ContextOutputFormat_Html, ContextOutputFormat_Html] html_world)) = 1 \<and>
     parserRuns (snd (requests (PageContext_example echo_parser demo_page True)
               [ContextOutputFormat_Html, ContextOutputFormat_Latex] html_world)) = 2 \<and>
     fst (requests (PageContext_example echo_parser demo_page True)
            [ContextOutputFormat_Html, ContextOutputFormat_Latex] html_world) =
       [TV_String (''<p>'' @ [CHR 0x5C] @ ''include demo.cpp</p>''),
        TV_String (''{'' @ [CHR 0x5C] @ ''include demo.cpp}'')]"
    using u(4) e1 e2 e3 ve unfolding u(5) by simp
  have E: "\<not> hasBriefDescription foo_def \<and>
     fst (requests (DefinitionContext_brief echo_parser foo_def)
            [ContextOutputFormat_Html, ContextOutputFormat_Latex, ContextOutputFormat_Html]
            html_world) = [TV_String [], TV_String [], TV_String []] \<and>
     parserRuns (snd (requests (DefinitionContext_brief echo_parser foo_def)
            [ContextOutputFormat_Html, ContextOutputFormat_Latex, ContextOutputFormat_Html]
            html_world)) = 0"
    using h(2) n1 n2 unfolding u(5) len by simp
  have F: "inbodyDocumentation bar_def = [] \<and>
     fst (requests (DefinitionContext_inbodyDocs echo_parser bar_def)
            [ContextOutputFormat_Html, ContextOutputFormat_Latex, ContextOutputFormat_Html]
            html_world) = [TV_String [], TV_String [], TV_String []] \<and>
     parserRuns (snd (requests (DefinitionContext_inbodyDocs echo_parser bar_def)
            [ContextOutputFormat_Html, ContextOutputFormat_Latex, ContextOutputFormat_Html]
            html_world)) = 0"
    using h(4) m1 m2 unfolding u(5) len by simp
  from A B C D E F e4 show ?thesis by blast
qed

text \<open>
  C10. For a symbol without a brief description, every request for \<open>brief\<close> that follows
  the creation of the cookie gives the empty String value, whatever output formats the
  passes set and however often they ask, and the parser never runs.
\<close>

theorem brief_empty:
  "\<not> hasBriefDescription d \<Longrightarrow>
     fst (requests (DefinitionContext_brief ext d) fs (w\<lparr>cookie := Cachable_new\<rparr>)) =
       replicate (length fs) (TV_String []) \<and>
     parserRuns (snd (requests (DefinitionContext_brief ext d) fs (w\<lparr>cookie := Cachable_new\<rparr>))) =
       parserRuns w"
  using brief_requests_no_description[of d "w\<lparr>cookie := Cachable_new\<rparr>" ext fs]
  by (simp add: Cachable_new_def)

text \<open>
  A witness of C10: the documented symbol has no brief description; an HTML request, a
  LaTeX request and a second HTML request give the empty string three times.
\<close>

theorem brief_empty_witness:
  "\<not> hasBriefDescription foo_def \<and>
   fst (requests (DefinitionContext_brief echo_parser foo_def)
          [ContextOutputFormat_Html, ContextOutputFormat_Latex, ContextOutputFormat_Html]
          (html_world\<lparr>cookie := Cachable_new\<rparr>)) =
     [TV_String [], TV_String [], TV_String []] \<and>
   parserRuns (snd (requests (DefinitionContext_brief echo_parser foo_def)
          [ContextOutputFormat_Html, ContextOutputFormat_Latex, ContextOutputFormat_Html]
          (html_world\<lparr>cookie := Cachable_new\<rparr>))) = 0"
  using brief_empty [of foo_def echo_parser
      "[ContextOutputFormat_Html, ContextOutputFormat_Latex, ContextOutputFormat_Html]" html_world]
  by (simp add: foo_def_def html_world_def)

section \<open>Depth of a tree and the preferred depth\<close>

lemma computeNumNodesAtLevel_loop_acc:
  "computeNumNodesAtLevel_loop list level maxLevel num =
     num + (\<Sum>v\<leftarrow>list. computeNumNodesAtLevel v level maxLevel)"
  by (induction list arbitrary: num) simp_all

lemma countNodes_acc:
  "countNodes list i num = num + (\<Sum>v\<leftarrow>list. computeNumNodesAtLevel v 0 i)"
  by (induction list arbitrary: num) simp_all

lemma node_levels_list_ge:
  "(\<And>v lv l. v \<in> set list \<Longrightarrow> l \<in> set (node_levels v lv) \<Longrightarrow> lv \<le> l) \<Longrightarrow>
   l \<in> set (node_levels_list list level) \<Longrightarrow> level \<le> l"
  by (induction list) auto

lemma node_levels_ge: "l \<in> set (node_levels s level) \<Longrightarrow> level \<le> l"
proof (induction s arbitrary: level l)
  case (TemplateStruct a child)
  show ?case
  proof (cases child)
    case None
    with TemplateStruct.prems show ?thesis by simp
  next
    case (Some list)
    have ih: "\<And>v lv l. v \<in> set list \<Longrightarrow> l \<in> set (node_levels v lv) \<Longrightarrow> lv \<le> l"
      using TemplateStruct.IH[of list] Some by simp
    from TemplateStruct.prems Some
    have "l = level \<or> l \<in> set (node_levels_list list (level + 1))" by simp
    then show ?thesis
    proof
      assume "l = level" then show ?thesis by simp
    next
      assume "l \<in> set (node_levels_list list (level + 1))"
      then have "level + 1 \<le> l" using ih by (rule node_levels_list_ge[rotated])
      then show ?thesis by simp
    qed
  qed
qed

lemma node_levels_list_count:
  "int (length (filter (\<lambda>l. l < limit) (node_levels_list list level))) =
     (\<Sum>v\<leftarrow>list. countNodesUpTo v level limit)"
  by (induction list) (simp_all add: countNodesUpTo_def)

lemma computeNumNodesAtLevel_counts:
  "computeNumNodesAtLevel s level maxLevel = countNodesUpTo s level maxLevel"
proof (induction s arbitrary: level)
  case (TemplateStruct a child)
  show ?case
  proof (cases "level < maxLevel")
    case False
    have "filter (\<lambda>l. l < maxLevel) (node_levels (TemplateStruct a child) level) = []"
      unfolding filter_empty_conv
      using node_levels_ge[of _ "TemplateStruct a child" level] False by force
    with False show ?thesis by (simp add: countNodesUpTo_def)
  next
    case True
    show ?thesis
    proof (cases child)
      case None
      with True show ?thesis by (simp add: countNodesUpTo_def)
    next
      case (Some list)
      have ih: "\<And>v. v \<in> set list \<Longrightarrow>
          computeNumNodesAtLevel v (level + 1) maxLevel = countNodesUpTo v (level + 1) maxLevel"
        using TemplateStruct.IH[of list] Some by simp
      have "(\<Sum>v\<leftarrow>list. computeNumNodesAtLevel v (level + 1) maxLevel) =
            (\<Sum>v\<leftarrow>list. countNodesUpTo v (level + 1) maxLevel)"
        by (rule arg_cong[where f = sum_list]) (simp add: ih)
      then show ?thesis
        using True Some node_levels_list_count[of maxLevel list "level + 1"]
        by (simp add: computeNumNodesAtLevel_loop_acc countNodesUpTo_def)
    qed
  qed
qed

lemma countNodes_counts:
  "countNodes list i 0 = int (length (filter (\<lambda>l. l < i) (node_levels_list list 0)))"
  by (simp add: countNodes_acc computeNumNodesAtLevel_counts node_levels_list_count)

lemma computeNumNodesAtLevel_mono:
  "maxLevel \<le> maxLevel' \<Longrightarrow>
     0 \<le> computeNumNodesAtLevel s level maxLevel \<and>
     computeNumNodesAtLevel s level maxLevel \<le> computeNumNodesAtLevel s level maxLevel'"
proof (induction s arbitrary: level)
  case (TemplateStruct a child)
  show ?case
  proof (cases child)
    case None
    with TemplateStruct.prems show ?thesis by simp
  next
    case (Some list)
    have ih: "\<And>v l. v \<in> set list \<Longrightarrow>
        0 \<le> computeNumNodesAtLevel v l maxLevel \<and>
        computeNumNodesAtLevel v l maxLevel \<le> computeNumNodesAtLevel v l maxLevel'"
      using TemplateStruct.IH[of list] TemplateStruct.prems Some by simp
    have le: "(\<Sum>v\<leftarrow>list. computeNumNodesAtLevel v (level + 1) maxLevel)
              \<le> (\<Sum>v\<leftarrow>list. computeNumNodesAtLevel v (level + 1) maxLevel')"
      by (rule sum_list_mono) (simp add: ih)
    have nn: "0 \<le> (\<Sum>v\<leftarrow>list. computeNumNodesAtLevel v (level + 1) maxLevel)"
      by (rule sum_list_nonneg) (auto simp: ih)
    have nn': "0 \<le> (\<Sum>v\<leftarrow>list. computeNumNodesAtLevel v (level + 1) maxLevel')"
      using le nn by linarith
    show ?thesis
      using Some TemplateStruct.prems le nn nn'
      by (simp add: computeNumNodesAtLevel_loop_acc)
  qed
qed

lemma countNodes_mono: "i \<le> j \<Longrightarrow> countNodes list i 0 \<le> countNodes list j 0"
  unfolding countNodes_acc
  by (simp add: sum_list_mono computeNumNodesAtLevel_mono)

lemma computePreferredDepth_loop_spec:
  "(computePreferredDepth_loop T list depth i p = p \<and> (depth < i \<or> T < countNodes list i 0)) \<or>
   (i \<le> computePreferredDepth_loop T list depth i p \<and>
    computePreferredDepth_loop T list depth i p \<le> depth \<and>
    (\<forall>j. i \<le> j \<and> j \<le> computePreferredDepth_loop T list depth i p \<longrightarrow> countNodes list j 0 \<le> T) \<and>
    (computePreferredDepth_loop T list depth i p = depth \<or>
     T < countNodes list (computePreferredDepth_loop T list depth i p + 1) 0))"
proof (induction T list depth i p rule: computePreferredDepth_loop.induct)
  case (1 T list depth i p)
  show ?case
  proof (cases "i \<le> depth \<and> countNodes list i 0 \<le> T")
    case False
    then show ?thesis by (subst computePreferredDepth_loop.simps) (auto simp: Let_def)
  next
    case True
    define r where "r = computePreferredDepth_loop T list depth (i + 1) i"
    have eq: "computePreferredDepth_loop T list depth i p = r"
      using True unfolding r_def by (subst computePreferredDepth_loop.simps) (simp add: Let_def)
    from "1.IH"[OF _ refl] True
    have ih: "(r = i \<and> (depth < i + 1 \<or> T < countNodes list (i + 1) 0)) \<or>
       (i + 1 \<le> r \<and> r \<le> depth \<and> (\<forall>j. i + 1 \<le> j \<and> j \<le> r \<longrightarrow> countNodes list j 0 \<le> T) \<and>
        (r = depth \<or> T < countNodes list (r + 1) 0))"
      unfolding r_def by simp
    have "i \<le> r \<and> r \<le> depth \<and> (\<forall>j. i \<le> j \<and> j \<le> r \<longrightarrow> countNodes list j 0 \<le> T) \<and>
        (r = depth \<or> T < countNodes list (r + 1) 0)"
    proof -
      from ih show ?thesis
      proof
        assume a: "r = i \<and> (depth < i + 1 \<or> T < countNodes list (i + 1) 0)"
        with True show ?thesis by auto
      next
        assume b: "i + 1 \<le> r \<and> r \<le> depth \<and> (\<forall>j. i + 1 \<le> j \<and> j \<le> r \<longrightarrow> countNodes list j 0 \<le> T) \<and>
          (r = depth \<or> T < countNodes list (r + 1) 0)"
        have "\<And>j. i \<le> j \<Longrightarrow> j \<le> r \<Longrightarrow> countNodes list j 0 \<le> T"
        proof -
          fix j assume "i \<le> j" "j \<le> r"
          then have "j = i \<or> i + 1 \<le> j" by linarith
          then show "countNodes list j 0 \<le> T" using True b \<open>j \<le> r\<close> by auto
        qed
        with b show ?thesis by auto
      qed
    qed
    with eq show ?thesis by simp
  qed
qed

lemma computeMaxDepth_loop_ge: "maxDepth \<le> computeMaxDepth_loop list maxDepth"
proof (induction list arbitrary: maxDepth)
  case Nil
  show ?case by simp
next
  case (Cons s list)
  obtain a child where s: "s = TemplateStruct a child" by (cases s)
  have "maxDepth \<le> (if computeMaxDepth child + 1 > maxDepth then computeMaxDepth child + 1 else maxDepth)"
    by simp
  also have "\<dots> \<le> computeMaxDepth_loop list (if computeMaxDepth child + 1 > maxDepth then computeMaxDepth child + 1 else maxDepth)"
    by (rule Cons.IH)
  finally show ?case by (simp add: s Let_def)
qed

lemma computeMaxDepth_nonneg: "0 \<le> computeMaxDepth l"
  by (cases l) (simp_all add: computeMaxDepth_loop_ge)

lemma computeMaxDepth_nonempty: "list \<noteq> [] \<Longrightarrow> 1 \<le> computeMaxDepth (Some list)"
proof (cases list)
  case Nil
  assume "list \<noteq> []" with Nil show ?thesis by simp
next
  case (Cons s rest)
  obtain a child where s: "s = TemplateStruct a child" by (cases s)
  have "1 \<le> (if computeMaxDepth child + 1 > 0 then computeMaxDepth child + 1 else 0)"
    using computeMaxDepth_nonneg[of child] by simp
  also have "\<dots> \<le> computeMaxDepth_loop rest (if computeMaxDepth child + 1 > 0 then computeMaxDepth child + 1 else 0)"
    by (rule computeMaxDepth_loop_ge)
  finally show ?thesis by (simp add: Cons s Let_def)
qed

text \<open>
  C4. The number that \<open>computeNumNodesAtLevel\<close> returns for a node at level
  \<open>level\<close> is the number of the nodes of its tree, the node itself included, whose level
  is below the limit; the number for depth \<open>i\<close> is the sum of these numbers over the
  roots, taken at level 0 with limit \<open>i\<close>, which is the number of the nodes of the whole
  tree list with a level below \<open>i\<close>. With a threshold \<open>T \<le> 0\<close> the preferred
  depth is 1. Otherwise the depths \<open>1, 2, \<dots>, maxDepth\<close> are tried in increasing
  order. The result is 1 when there is no depth to try or already the sum for depth 1
  exceeds \<open>T\<close>. In the remaining case every depth up to the result has a sum of at most
  \<open>T\<close>, the scan stopped at the result because it was the last depth or the next sum
  exceeds \<open>T\<close>, and no depth up to \<open>maxDepth\<close> with a sum of at most \<open>T\<close> is
  larger than the result.
\<close>

theorem computePreferredDepth_scan:
  "computeNumNodesAtLevel s level i = countNodesUpTo s level i \<and>
   countNodes list i 0 = (\<Sum>v\<leftarrow>list. computeNumNodesAtLevel v 0 i) \<and>
   countNodes list i 0 = int (length (filter (\<lambda>l. l < i) (node_levels_list list 0))) \<and>
   (T \<le> 0 \<longrightarrow> computePreferredDepth T list maxDepth = 1) \<and>
   (0 < T \<and> (maxDepth < 1 \<or> T < countNodes list 1 0) \<longrightarrow>
      computePreferredDepth T list maxDepth = 1) \<and>
   (0 < T \<and> 1 \<le> maxDepth \<and> countNodes list 1 0 \<le> T \<longrightarrow>
      1 \<le> computePreferredDepth T list maxDepth \<and>
      computePreferredDepth T list maxDepth \<le> maxDepth \<and>
      (\<forall>j. 1 \<le> j \<and> j \<le> computePreferredDepth T list maxDepth \<longrightarrow> countNodes list j 0 \<le> T) \<and>
      (computePreferredDepth T list maxDepth = maxDepth \<or>
       T < countNodes list (computePreferredDepth T list maxDepth + 1) 0) \<and>
      (\<forall>j. 1 \<le> j \<and> j \<le> maxDepth \<and> countNodes list j 0 \<le> T \<longrightarrow>
           j \<le> computePreferredDepth T list maxDepth))"
proof -
  define r where "r = computePreferredDepth T list maxDepth"
  have A: "T \<le> 0 \<Longrightarrow> r = 1"
    by (simp add: r_def computePreferredDepth_def)
  have B: "0 < T \<and> (maxDepth < 1 \<or> T < countNodes list 1 0) \<Longrightarrow> r = 1"
  proof -
    assume a: "0 < T \<and> (maxDepth < 1 \<or> T < countNodes list 1 0)"
    then have "computePreferredDepth_loop T list maxDepth 1 1 = 1"
      by (subst computePreferredDepth_loop.simps) (auto simp: Let_def)
    with a show "r = 1" by (simp add: r_def computePreferredDepth_def)
  qed
  have C: "0 < T \<and> 1 \<le> maxDepth \<and> countNodes list 1 0 \<le> T \<Longrightarrow>
      1 \<le> r \<and> r \<le> maxDepth \<and> (\<forall>j. 1 \<le> j \<and> j \<le> r \<longrightarrow> countNodes list j 0 \<le> T) \<and>
      (r = maxDepth \<or> T < countNodes list (r + 1) 0) \<and>
      (\<forall>j. 1 \<le> j \<and> j \<le> maxDepth \<and> countNodes list j 0 \<le> T \<longrightarrow> j \<le> r)"
  proof -
    assume a: "0 < T \<and> 1 \<le> maxDepth \<and> countNodes list 1 0 \<le> T"
    have r: "r = computePreferredDepth_loop T list maxDepth 1 1"
      using a by (simp add: r_def computePreferredDepth_def)
    from computePreferredDepth_loop_spec[of T list maxDepth 1 1] a
    have s: "1 \<le> r \<and> r \<le> maxDepth \<and> (\<forall>j. 1 \<le> j \<and> j \<le> r \<longrightarrow> countNodes list j 0 \<le> T) \<and>
          (r = maxDepth \<or> T < countNodes list (r + 1) 0)"
      unfolding r by auto
    have big: "\<forall>j. 1 \<le> j \<and> j \<le> maxDepth \<and> countNodes list j 0 \<le> T \<longrightarrow> j \<le> r"
    proof (intro allI impI)
      fix j assume j: "1 \<le> j \<and> j \<le> maxDepth \<and> countNodes list j 0 \<le> T"
      show "j \<le> r"
      proof (rule ccontr)
        assume "\<not> j \<le> r"
        then have lt: "r + 1 \<le> j" by simp
        with j s have "T < countNodes list (r + 1) 0" by auto
        moreover have "countNodes list (r + 1) 0 \<le> countNodes list j 0"
          by (rule countNodes_mono[OF lt])
        ultimately show False using j by simp
      qed
    qed
    from s big show ?thesis by blast
  qed
  have S: "countNodes list i 0 = (\<Sum>v\<leftarrow>list. computeNumNodesAtLevel v 0 i)"
    by (simp add: countNodes_acc)
  have N: "computeNumNodesAtLevel s level i = countNodesUpTo s level i"
    by (rule computeNumNodesAtLevel_counts)
  have L: "countNodes list i 0 = int (length (filter (\<lambda>l. l < i) (node_levels_list list 0)))"
    by (rule countNodes_counts)
  from N S L A B C show ?thesis unfolding r_def by blast
qed

lemma two_roots_counts:
  "countNodes two_roots 1 0 = 2" "countNodes two_roots 2 0 = 3"
  "computeMaxDepth (Some two_roots) = 2"
  by (simp_all add: two_roots_def)

lemma three_levels_counts:
  "countNodes three_levels 1 0 = 2" "countNodes three_levels 2 0 = 5"
  "countNodes three_levels 3 0 = 8"
  "computeMaxDepth (Some three_levels) = 3"
  "node_levels_list three_levels 0 = [0, 1, 2, 2, 1, 0, 1, 2]"
  by (simp_all add: three_levels_def)

lemma two_roots_levels: "node_levels_list two_roots 0 = [0, 0, 1]"
  by (simp add: two_roots_def)

text \<open>
  A witness of C4 in the scenario and in the tree of depth 3. In the scenario the tree has
  the depth 2, the levels of its nodes are 0, 0 and 1, so one level has 2 nodes and two levels
  have 3: the threshold 1 is exceeded at depth 1 already and gives 1, the threshold 2 gives 1,
  the threshold 3 gives the last depth 2, and the threshold 0 gives 1. The tree of depth 3
  has 2, 5 and 8 nodes up to the depths 1, 2 and 3: the threshold 1 gives 1, the thresholds 5
  and 7 give 2, and the threshold 8 gives 3. The root \<open>A\<close> of that tree alone has 1, 3 and
  5 nodes up to the limits 1, 2 and 3, and counted as a node of level 1 it has 1 node below
  the limit 2.
\<close>

theorem computePreferredDepth_scan_witness:
  "computeMaxDepth (Some two_roots) = 2 \<and>
   countNodes two_roots 1 0 = 2 \<and> countNodes two_roots 2 0 = 3 \<and>
   int (length (filter (\<lambda>l. l < 1) (node_levels_list two_roots 0))) = 2 \<and>
   int (length (filter (\<lambda>l. l < 2) (node_levels_list two_roots 0))) = 3 \<and>
   0 < (1::int) \<and> (1::int) < countNodes two_roots 1 0 \<and>
   computePreferredDepth 1 two_roots 2 = 1 \<and>
   0 < (2::int) \<and> (1::int) \<le> 2 \<and> countNodes two_roots 1 0 \<le> 2 \<and>
   (computePreferredDepth 2 two_roots 2 = 2 \<or>
    2 < countNodes two_roots (computePreferredDepth 2 two_roots 2 + 1) 0) \<and>
   computePreferredDepth 2 two_roots 2 = 1 \<and>
   0 < (3::int) \<and> countNodes two_roots 1 0 \<le> 3 \<and>
   computePreferredDepth 3 two_roots 2 = 2 \<and>
   (0::int) \<le> 0 \<and> computePreferredDepth 0 two_roots 2 = 1 \<and>
   computeMaxDepth (Some three_levels) = 3 \<and>
   countNodes three_levels 1 0 = 2 \<and> countNodes three_levels 2 0 = 5 \<and>
   countNodes three_levels 3 0 = 8 \<and>
   computeNumNodesAtLevel (hd three_levels) 0 1 = 1 \<and>
   computeNumNodesAtLevel (hd three_levels) 0 2 = 3 \<and>
   computeNumNodesAtLevel (hd three_levels) 0 3 = 5 \<and>
   computeNumNodesAtLevel (hd three_levels) 1 2 = 1 \<and>
   countNodesUpTo (hd three_levels) 0 2 = 3 \<and>
   countNodesUpTo (hd three_levels) 1 2 = 1 \<and>
   (1::int) < countNodes three_levels 1 0 \<and>
   computePreferredDepth 1 three_levels 3 = 1 \<and>
   0 < (5::int) \<and> (1::int) \<le> 3 \<and> countNodes three_levels 1 0 \<le> 5 \<and>
   computePreferredDepth 5 three_levels 3 = 2 \<and>
   (5::int) < countNodes three_levels (computePreferredDepth 5 three_levels 3 + 1) 0 \<and>
   computePreferredDepth 7 three_levels 3 = 2 \<and>
   0 < (8::int) \<and> countNodes three_levels 1 0 \<le> 8 \<and>
   computePreferredDepth 8 three_levels 3 = 3"
proof -
  have hd3: "hd three_levels =
      TemplateStruct ''A''
        (Some [TemplateStruct ''B'' (Some [TemplateStruct ''C'' None,
                                           TemplateStruct ''D'' (Some [])]),
               TemplateStruct ''E'' None])"
    by (simp add: three_levels_def)
  have n: "computeNumNodesAtLevel (hd three_levels) 0 1 = 1"
      "computeNumNodesAtLevel (hd three_levels) 0 2 = 3"
      "computeNumNodesAtLevel (hd three_levels) 0 3 = 5"
      "computeNumNodesAtLevel (hd three_levels) 1 2 = 1"
    unfolding hd3 by simp_all
  from computePreferredDepth_scan [where s = "hd three_levels" and level = 0 and i = 2
      and list = three_levels and T = 0 and maxDepth = 3, THEN conjunct1]
  have u1: "countNodesUpTo (hd three_levels) 0 2 = 3" using n(2) by simp
  from computePreferredDepth_scan [where s = "hd three_levels" and level = 1 and i = 2
      and list = three_levels and T = 0 and maxDepth = 3, THEN conjunct1]
  have u2: "countNodesUpTo (hd three_levels) 1 2 = 1" using n(4) by simp
  from computePreferredDepth_scan [where s = "hd two_roots" and level = 0 and i = 1
      and list = two_roots and T = 0 and maxDepth = 2, THEN conjunct2, THEN conjunct2,
      THEN conjunct1]
  have l1: "int (length (filter (\<lambda>l. l < 1) (node_levels_list two_roots 0))) = 2"
    using two_roots_counts(1) by simp
  from computePreferredDepth_scan [where s = "hd two_roots" and level = 0 and i = 2
      and list = two_roots and T = 0 and maxDepth = 2, THEN conjunct2, THEN conjunct2,
      THEN conjunct1]
  have l2: "int (length (filter (\<lambda>l. l < 2) (node_levels_list two_roots 0))) = 3"
    using two_roots_counts(2) by simp
  have h1: "0 < (1::int) \<and> ((2::int) < 1 \<or> (1::int) < countNodes two_roots 1 0)"
    by (simp add: two_roots_counts)
  from computePreferredDepth_scan [where s = "hd two_roots" and level = 0 and i = 1
      and list = two_roots and T = 1 and maxDepth = 2] h1
  have a1: "computePreferredDepth 1 two_roots 2 = 1" by blast
  have h2: "0 < (2::int) \<and> (1::int) \<le> 2 \<and> countNodes two_roots 1 0 \<le> 2"
    by (simp add: two_roots_counts)
  from computePreferredDepth_scan [where s = "hd two_roots" and level = 0 and i = 1
      and list = two_roots and T = 2 and maxDepth = 2] h2
  have a2: "computePreferredDepth 2 two_roots 2 = 2 \<or>
       2 < countNodes two_roots (computePreferredDepth 2 two_roots 2 + 1) 0"
    by blast
  have v2: "computePreferredDepth 2 two_roots 2 = 1"
    by (simp add: computePreferredDepth_def computePreferredDepth_loop.simps two_roots_counts)
  have h3: "0 < (3::int) \<and> (1::int) \<le> 2 \<and> countNodes two_roots 1 0 \<le> 3 \<and>
      countNodes two_roots 2 0 \<le> 3"
    by (simp add: two_roots_counts)
  from computePreferredDepth_scan [where s = "hd two_roots" and level = 0 and i = 1
      and list = two_roots and T = 3 and maxDepth = 2] h3
  have a3: "computePreferredDepth 3 two_roots 2 \<le> 2"
    and a3': "\<forall>j. 1 \<le> j \<and> j \<le> 2 \<and> countNodes two_roots j 0 \<le> 3 \<longrightarrow>
                 j \<le> computePreferredDepth 3 two_roots 2"
    by blast+
  from a3' [rule_format, of 2] h3 have "2 \<le> computePreferredDepth 3 two_roots 2" by simp
  with a3 have v3: "computePreferredDepth 3 two_roots 2 = 2" by simp
  from computePreferredDepth_scan [where s = "hd two_roots" and level = 0 and i = 1
      and list = two_roots and T = 0 and maxDepth = 2]
  have z: "computePreferredDepth 0 two_roots 2 = 1" by blast
  have k1: "0 < (1::int) \<and> ((3::int) < 1 \<or> (1::int) < countNodes three_levels 1 0)"
    by (simp add: three_levels_counts)
  from computePreferredDepth_scan [where s = "hd three_levels" and level = 0 and i = 1
      and list = three_levels and T = 1 and maxDepth = 3] k1
  have b1: "computePreferredDepth 1 three_levels 3 = 1" by blast
  have k5: "0 < (5::int) \<and> (1::int) \<le> 3 \<and> countNodes three_levels 1 0 \<le> 5"
    by (simp add: three_levels_counts)
  have w5: "computePreferredDepth 5 three_levels 3 = 2"
    by (simp add: computePreferredDepth_def computePreferredDepth_loop.simps three_levels_counts)
  from computePreferredDepth_scan [where s = "hd three_levels" and level = 0 and i = 1
      and list = three_levels and T = 5 and maxDepth = 3] k5
  have b5: "computePreferredDepth 5 three_levels 3 = 3 \<or>
       5 < countNodes three_levels (computePreferredDepth 5 three_levels 3 + 1) 0"
    by blast
  with w5 have c5: "5 < countNodes three_levels (computePreferredDepth 5 three_levels 3 + 1) 0"
    by simp
  have w7: "computePreferredDepth 7 three_levels 3 = 2"
    by (simp add: computePreferredDepth_def computePreferredDepth_loop.simps three_levels_counts)
  have k8: "0 < (8::int) \<and> (1::int) \<le> 3 \<and> countNodes three_levels 1 0 \<le> 8 \<and>
      countNodes three_levels 3 0 \<le> 8"
    by (simp add: three_levels_counts)
  from computePreferredDepth_scan [where s = "hd three_levels" and level = 0 and i = 1
      and list = three_levels and T = 8 and maxDepth = 3] k8
  have b8: "computePreferredDepth 8 three_levels 3 \<le> 3"
    and b8': "\<forall>j. 1 \<le> j \<and> j \<le> 3 \<and> countNodes three_levels j 0 \<le> 8 \<longrightarrow>
                 j \<le> computePreferredDepth 8 three_levels 3"
    by blast+
  from b8' [rule_format, of 3] k8 have "3 \<le> computePreferredDepth 8 three_levels 3" by simp
  with b8 have w8: "computePreferredDepth 8 three_levels 3 = 3" by simp
  have t: "computeMaxDepth (Some two_roots) = 2" by (rule two_roots_counts(3))
  have t3: "computeMaxDepth (Some three_levels) = 3" by (rule three_levels_counts(4))
  have A: "computeMaxDepth (Some two_roots) = 2 \<and>
     countNodes two_roots 1 0 = 2 \<and> countNodes two_roots 2 0 = 3 \<and>
     int (length (filter (\<lambda>l. l < 1) (node_levels_list two_roots 0))) = 2 \<and>
     int (length (filter (\<lambda>l. l < 2) (node_levels_list two_roots 0))) = 3"
    using t two_roots_counts(1,2) l1 l2 by blast
  have B: "0 < (1::int) \<and> (1::int) < countNodes two_roots 1 0 \<and>
     computePreferredDepth 1 two_roots 2 = 1"
    using h1 a1 by simp
  have C: "0 < (2::int) \<and> (1::int) \<le> 2 \<and> countNodes two_roots 1 0 \<le> 2 \<and>
     (computePreferredDepth 2 two_roots 2 = 2 \<or>
      2 < countNodes two_roots (computePreferredDepth 2 two_roots 2 + 1) 0) \<and>
     computePreferredDepth 2 two_roots 2 = 1"
    using h2 a2 v2 by blast
  have D: "0 < (3::int) \<and> countNodes two_roots 1 0 \<le> 3 \<and>
     computePreferredDepth 3 two_roots 2 = 2 \<and>
     (0::int) \<le> 0 \<and> computePreferredDepth 0 two_roots 2 = 1"
    using h3 v3 z by simp
  have E: "computeMaxDepth (Some three_levels) = 3 \<and>
     countNodes three_levels 1 0 = 2 \<and> countNodes three_levels 2 0 = 5 \<and>
     countNodes three_levels 3 0 = 8"
    using t3 three_levels_counts(1,2,3) by blast
  have F: "computeNumNodesAtLevel (hd three_levels) 0 1 = 1 \<and>
     computeNumNodesAtLevel (hd three_levels) 0 2 = 3 \<and>
     computeNumNodesAtLevel (hd three_levels) 0 3 = 5 \<and>
     computeNumNodesAtLevel (hd three_levels) 1 2 = 1 \<and>
     countNodesUpTo (hd three_levels) 0 2 = 3 \<and>
     countNodesUpTo (hd three_levels) 1 2 = 1"
    using n u1 u2 by blast
  have G: "(1::int) < countNodes three_levels 1 0 \<and>
     computePreferredDepth 1 three_levels 3 = 1"
    using k1 b1 by simp
  have H: "0 < (5::int) \<and> (1::int) \<le> 3 \<and> countNodes three_levels 1 0 \<le> 5 \<and>
     computePreferredDepth 5 three_levels 3 = 2 \<and>
     (5::int) < countNodes three_levels (computePreferredDepth 5 three_levels 3 + 1) 0 \<and>
     computePreferredDepth 7 three_levels 3 = 2"
    using k5 w5 c5 w7 by blast
  have I: "0 < (8::int) \<and> countNodes three_levels 1 0 \<le> 8 \<and>
     computePreferredDepth 8 three_levels 3 = 3"
    using k8 w8 by simp
  from A B C D E F G H I show ?thesis by blast
qed

text \<open>
  C5 fails for the empty tree: its depth is 0 and its preferred depth is the initial
  value 1.
\<close>

theorem preferredDepth_empty_counterexample:
  "\<not> computePreferredDepth 1 ([] :: unit TemplateStruct list) (computeMaxDepth (Some []))
       \<le> computeMaxDepth (Some ([] :: unit TemplateStruct list))"
  by (simp add: computePreferredDepth_def computePreferredDepth_loop.simps)

text \<open>
  C5, amended. For a tree with at least one root the preferred depth is at most the
  depth of the tree. For every tree the nodes counted up to the preferred depth are at
  most \<open>T\<close> whenever \<open>T\<close> is positive and the roots alone are at most \<open>T\<close>, and the
  preferred depth is 1 whenever \<open>T \<le> 0\<close>.
\<close>

theorem preferredDepth_bound:
  "(list \<noteq> [] \<longrightarrow>
      computePreferredDepth T list (computeMaxDepth (Some list)) \<le> computeMaxDepth (Some list)) \<and>
   (0 < T \<and> countNodes list 1 0 \<le> T \<longrightarrow>
      countNodes list (computePreferredDepth T list (computeMaxDepth (Some list))) 0 \<le> T) \<and>
   (T \<le> 0 \<longrightarrow> computePreferredDepth T list (computeMaxDepth (Some list)) = 1)"
proof (intro conjI impI)
  assume ne: "list \<noteq> []"
  let ?m = "computeMaxDepth (Some list)"
  have m: "1 \<le> ?m" by (rule computeMaxDepth_nonempty[OF ne])
  show "computePreferredDepth T list ?m \<le> ?m"
  proof (cases "0 < T")
    case False
    with m show ?thesis by (simp add: computePreferredDepth_def)
  next
    case True
    from computePreferredDepth_loop_spec[of T list ?m 1 1] m True
    show ?thesis by (auto simp: computePreferredDepth_def)
  qed
next
  assume a: "0 < T \<and> countNodes list 1 0 \<le> T"
  let ?m = "computeMaxDepth (Some list)"
  from computePreferredDepth_loop_spec[of T list ?m 1 1] a
  show "countNodes list (computePreferredDepth T list ?m) 0 \<le> T"
    by (auto simp: computePreferredDepth_def)
next
  assume "T \<le> 0"
  then show "computePreferredDepth T list (computeMaxDepth (Some list)) = 1"
    by (simp add: computePreferredDepth_def)
qed

text \<open>A witness of C5 in the scenario, with the thresholds 2 and 0.\<close>

theorem preferredDepth_bound_witness:
  "two_roots \<noteq> [] \<and>
   computePreferredDepth 2 two_roots (computeMaxDepth (Some two_roots))
     \<le> computeMaxDepth (Some two_roots) \<and>
   0 < (2::int) \<and> countNodes two_roots 1 0 \<le> 2 \<and>
   countNodes two_roots (computePreferredDepth 2 two_roots (computeMaxDepth (Some two_roots))) 0
     \<le> 2 \<and>
   (0::int) \<le> 0 \<and>
   computePreferredDepth 0 two_roots (computeMaxDepth (Some two_roots)) = 1"
proof -
  have ne: "two_roots \<noteq> []" by (simp add: two_roots_def)
  have hyp: "0 < (2::int) \<and> countNodes two_roots 1 0 \<le> 2" by (simp add: two_roots_counts)
  from preferredDepth_bound [of two_roots 2] ne hyp
  have a: "computePreferredDepth 2 two_roots (computeMaxDepth (Some two_roots))
             \<le> computeMaxDepth (Some two_roots)"
    and b: "countNodes two_roots
              (computePreferredDepth 2 two_roots (computeMaxDepth (Some two_roots))) 0 \<le> 2"
    by blast+
  from preferredDepth_bound [of two_roots 0]
  have z: "computePreferredDepth 0 two_roots (computeMaxDepth (Some two_roots)) = 1" by simp
  from ne hyp a b z show ?thesis by simp
qed

section \<open>Inherited members: every base class contributes once\<close>

lemma emits_refl: "emits g inh st st"
  by (simp add: emits_def)

lemma emits_trans:
  assumes "emits g inh st1 st2" and "emits g inh st2 st3"
  shows "emits g inh st1 st3"
proof -
  from assms(1) obtain n1 where n1: "fst st2 = fst st1 @ n1" "snd st1 \<subseteq> snd st2"
    "m_class ` set n1 \<subseteq> snd st2 - snd st1" "distinct (map m_class n1)"
    "\<forall>e\<in>set n1. \<exists>lt lt1 lt2.
       ml_members (m_memberList e) = combinedList g inh (m_class e) lt lt1 lt2"
    unfolding emits_def by blast
  from assms(2) obtain n2 where n2: "fst st3 = fst st2 @ n2" "snd st2 \<subseteq> snd st3"
    "m_class ` set n2 \<subseteq> snd st3 - snd st2" "distinct (map m_class n2)"
    "\<forall>e\<in>set n2. \<exists>lt lt1 lt2.
       ml_members (m_memberList e) = combinedList g inh (m_class e) lt lt1 lt2"
    unfolding emits_def by blast
  have a: "fst st3 = fst st1 @ (n1 @ n2)" using n1(1) n2(1) by simp
  have b: "snd st1 \<subseteq> snd st3" using n1(2) n2(2) by blast
  have c: "m_class ` set (n1 @ n2) \<subseteq> snd st3 - snd st1"
    using n1(2,3) n2(2,3) by auto
  have "m_class ` set n1 \<inter> m_class ` set n2 = {}" using n1(3) n2(3) by blast
  then have d: "distinct (map m_class (n1 @ n2))" using n1(4) n2(4) by simp
  have e: "\<forall>e\<in>set (n1 @ n2). \<exists>lt lt1 lt2.
       ml_members (m_memberList e) = combinedList g inh (m_class e) lt lt1 lt2"
    using n1(5) n2(5) by auto
  show ?thesis unfolding emits_def using a b c d e by blast
qed

lemma emits_insert: "emits g inh (p, V) (p, insert icd V)"
  by (auto simp: emits_def)

lemma emits_addInheritedMembers:
  assumes "icd \<notin> V"
  shows "emits g inh (p, V) (addInheritedMembers g inh icd lt lt1 lt2 title add p, insert icd V)"
proof (cases "addInheritedMembers g inh icd lt lt1 lt2 title add p = p")
  case True
  then show ?thesis by (simp add: emits_insert)
next
  case False
  then have eq: "addInheritedMembers g inh icd lt lt1 lt2 title add p =
      p @ [\<lparr> m_class = icd,
              m_memberList = \<lparr> listType = lt, ml_members = combinedList g inh icd lt lt1 lt2,
                               getMemberGroupList = [] \<rparr>,
              m_title = title \<rparr>]"
    by (simp add: addInheritedMembers_def Let_def split: if_splits)
  show ?thesis
    unfolding emits_def eq using assms
    by (intro exI[of _ "[\<lparr> m_class = icd,
              m_memberList = \<lparr> listType = lt, ml_members = combinedList g inh icd lt lt1 lt2,
                               getMemberGroupList = [] \<rparr>,
              m_title = title \<rparr>]"]) auto
qed

lemma findInheritedMembers_loop_emits:
  assumes P: "\<And>cd lt lt2 st st'.
      findInheritedMembers n g inh cd lt lt2 title add st = Some st' \<Longrightarrow> emits g inh st st'"
  shows "findInheritedMembers_loop n g inh bcl lt lt2 title add st = Some st' \<Longrightarrow>
         emits g inh st st'"
proof (induction bcl arbitrary: lt2 st)
  case Nil
  then show ?case by (simp add: emits_refl)
next
  case (Cons ibcd rest)
  obtain p V where st: "st = (p, V)" by (cases st)
  define icd where "icd = classDef ibcd"
  define lt1 where "lt1 = fst (convertProtectionLevel g lt (prot ibcd))"
  define lt3 where "lt3 = snd (convertProtectionLevel g lt (prot ibcd))"
  define lt2' where "lt2' = (if lt2 = -1 \<and> lt3 \<noteq> -1 then lt3 else lt2)"
  have eq: "findInheritedMembers_loop n g inh (ibcd # rest) lt lt2 title add (p, V) =
      (if isLinkable (classAt g icd) then
         (if icd \<notin> V then
            (if lt1 \<noteq> -1 then
               (case findInheritedMembers n g inh icd lt1 lt2' title add
                       (addInheritedMembers g inh icd lt lt1 lt2' title add p, insert icd V) of
                  None \<Rightarrow> None
                | Some st1 \<Rightarrow> findInheritedMembers_loop n g inh rest lt lt2' title add st1)
             else findInheritedMembers_loop n g inh rest lt lt2' title add (p, insert icd V))
          else findInheritedMembers_loop n g inh rest lt lt2' title add (p, V))
       else findInheritedMembers_loop n g inh rest lt lt2 title add (p, V))"
    unfolding icd_def lt1_def lt3_def lt2'_def by (simp add: Let_def)
  show ?case
  proof (cases "isLinkable (classAt g icd)")
    case False
    with Cons.prems have "findInheritedMembers_loop n g inh rest lt lt2 title add st = Some st'"
      unfolding st eq by simp
    then show ?thesis by (rule Cons.IH)
  next
    case link: True
    show ?thesis
    proof (cases "icd \<in> V")
      case True
      with link Cons.prems
      have "findInheritedMembers_loop n g inh rest lt lt2' title add st = Some st'"
        unfolding st eq by simp
      then show ?thesis by (rule Cons.IH)
    next
      case new: False
      show ?thesis
      proof (cases "lt1 = -1")
        case True
        with link new Cons.prems
        have "findInheritedMembers_loop n g inh rest lt lt2' title add (p, insert icd V) = Some st'"
          unfolding st eq by simp
        then have "emits g inh (p, insert icd V) st'" by (rule Cons.IH)
        with emits_insert[of g inh p V icd] show ?thesis
          unfolding st by (rule emits_trans)
      next
        case False
        let ?st0 = "(addInheritedMembers g inh icd lt lt1 lt2' title add p, insert icd V)"
        from False link new Cons.prems
        obtain st1 where
          r1: "findInheritedMembers n g inh icd lt1 lt2' title add ?st0 = Some st1" and
          r2: "findInheritedMembers_loop n g inh rest lt lt2' title add st1 = Some st'"
          unfolding st eq by (auto split: option.splits)
        have "emits g inh (p, V) ?st0" by (rule emits_addInheritedMembers[OF new])
        moreover have "emits g inh ?st0 st1" by (rule P[OF r1])
        moreover have "emits g inh st1 st'" by (rule Cons.IH[OF r2])
        ultimately show ?thesis unfolding st by (blast intro: emits_trans)
      qed
    qed
  qed
qed

lemma findInheritedMembers_emits:
  "findInheritedMembers n g inh cd lt lt2 title add st = Some st' \<Longrightarrow> emits g inh st st'"
proof (induction n arbitrary: cd lt lt2 st st')
  case 0
  then show ?case by simp
next
  case (Suc n)
  from Suc.prems
  have "findInheritedMembers_loop n g inh (baseClasses (classAt g cd)) lt lt2 title add st = Some st'"
    by simp
  then show ?case
    by (rule findInheritedMembers_loop_emits[rotated]) (rule Suc.IH)
qed

lemma card_Diff_insert_less:
  assumes "finite U" "c \<in> U" "c \<notin> V"
  shows "card (U - insert c V) < card (U - V)"
proof -
  have "U - insert c V \<subset> U - V" using assms(2,3) by blast
  moreover have "finite (U - V)" using assms(1) by simp
  ultimately show ?thesis by (rule psubset_card_mono[rotated])
qed

lemma card_Diff_mono:
  assumes "finite U" "V \<subseteq> V'"
  shows "card (U - V') \<le> card (U - V)"
  by (rule card_mono) (use assms in auto)

lemma findInheritedMembers_loop_total:
  assumes fin: "finite U"
    and P: "\<And>cd lt lt2 st. cd \<in> U \<Longrightarrow> card (U - snd st) < n \<Longrightarrow>
              \<exists>st'. findInheritedMembers n g inh cd lt lt2 title add st = Some st'"
  shows "classDef ` set bcl \<subseteq> U \<Longrightarrow> card (U - snd st) \<le> n \<Longrightarrow>
         \<exists>st'. findInheritedMembers_loop n g inh bcl lt lt2 title add st = Some st'"
proof (induction bcl arbitrary: lt2 st)
  case Nil
  then show ?case by simp
next
  case (Cons ibcd rest)
  obtain p V where st: "st = (p, V)" by (cases st)
  define icd where "icd = classDef ibcd"
  define lt1 where "lt1 = fst (convertProtectionLevel g lt (prot ibcd))"
  define lt3 where "lt3 = snd (convertProtectionLevel g lt (prot ibcd))"
  define lt2' where "lt2' = (if lt2 = -1 \<and> lt3 \<noteq> -1 then lt3 else lt2)"
  have eq: "findInheritedMembers_loop n g inh (ibcd # rest) lt lt2 title add (p, V) =
      (if isLinkable (classAt g icd) then
         (if icd \<notin> V then
            (if lt1 \<noteq> -1 then
               (case findInheritedMembers n g inh icd lt1 lt2' title add
                       (addInheritedMembers g inh icd lt lt1 lt2' title add p, insert icd V) of
                  None \<Rightarrow> None
                | Some st1 \<Rightarrow> findInheritedMembers_loop n g inh rest lt lt2' title add st1)
             else findInheritedMembers_loop n g inh rest lt lt2' title add (p, insert icd V))
          else findInheritedMembers_loop n g inh rest lt lt2' title add (p, V))
       else findInheritedMembers_loop n g inh rest lt lt2 title add (p, V))"
    unfolding icd_def lt1_def lt3_def lt2'_def by (simp add: Let_def)
  have inU: "icd \<in> U" and restU: "classDef ` set rest \<subseteq> U"
    using Cons.prems(1) by (auto simp: icd_def)
  have cardV: "card (U - V) \<le> n" using Cons.prems(2) st by simp
  show ?case
  proof (cases "isLinkable (classAt g icd)")
    case False
    from Cons.IH[OF restU Cons.prems(2), of lt2] False show ?thesis
      unfolding st eq by simp
  next
    case link: True
    show ?thesis
    proof (cases "icd \<in> V")
      case True
      from Cons.IH[OF restU Cons.prems(2), of lt2'] True link show ?thesis
        unfolding st eq by simp
    next
      case new: False
      have less: "card (U - insert icd V) < n"
        using card_Diff_insert_less[OF fin inU new] cardV by simp
      show ?thesis
      proof (cases "lt1 = -1")
        case True
        have "card (U - snd (p, insert icd V)) \<le> n" using less by simp
        from Cons.IH[OF restU this, of lt2'] True link new show ?thesis
          unfolding st eq by simp
      next
        case False
        let ?st0 = "(addInheritedMembers g inh icd lt lt1 lt2' title add p, insert icd V)"
        have "card (U - snd ?st0) < n" using less by simp
        from P[OF inU this, of lt1 lt2']
        obtain st1 where r1: "findInheritedMembers n g inh icd lt1 lt2' title add ?st0 = Some st1"
          by blast
        have "emits g inh ?st0 st1" by (rule findInheritedMembers_emits[OF r1])
        then have "insert icd V \<subseteq> snd st1" by (auto simp: emits_def)
        then have "card (U - snd st1) \<le> card (U - insert icd V)"
          by (rule card_Diff_mono[OF fin])
        with less have "card (U - snd st1) \<le> n" by simp
        from Cons.IH[OF restU this, of lt2']
        obtain st' where "findInheritedMembers_loop n g inh rest lt lt2' title add st1 = Some st'"
          by blast
        with r1 False link new show ?thesis
          unfolding st eq by simp
      qed
    qed
  qed
qed

lemma findInheritedMembers_total:
  assumes fin: "finite U"
    and closed: "\<forall>c\<in>U. classDef ` set (baseClasses (classAt g c)) \<subseteq> U"
  shows "cd \<in> U \<Longrightarrow> card (U - snd st) < n \<Longrightarrow>
         \<exists>st'. findInheritedMembers n g inh cd lt lt2 title add st = Some st'"
proof (induction n arbitrary: cd lt lt2 st)
  case 0
  then show ?case by simp
next
  case (Suc n)
  have b: "classDef ` set (baseClasses (classAt g cd)) \<subseteq> U"
    using closed Suc.prems(1) by blast
  have c: "card (U - snd st) \<le> n" using Suc.prems(2) by simp
  have "\<exists>st'. findInheritedMembers_loop n g inh (baseClasses (classAt g cd)) lt lt2 title add st = Some st'"
    by (rule findInheritedMembers_loop_total[OF fin _ b c]) (rule Suc.IH)
  then show ?case by simp
qed

lemma addInheritedMembers_prefix:
  "addInheritedMembers g inh cd lt lt1 lt2 title add p =
     p @ addInheritedMembers g inh cd lt lt1 lt2 title add []"
  by (simp add: addInheritedMembers_def Let_def)

lemma findInheritedMembers_loop_prefix:
  assumes P: "\<And>cd lt lt2 p V.
      findInheritedMembers n g inh cd lt lt2 title add (p, V) =
        map_option (\<lambda>r. (p @ fst r, snd r))
          (findInheritedMembers n g inh cd lt lt2 title add ([], V))"
  shows "findInheritedMembers_loop n g inh bcl lt lt2 title add (p, V) =
           map_option (\<lambda>r. (p @ fst r, snd r))
             (findInheritedMembers_loop n g inh bcl lt lt2 title add ([], V))"
proof (induction bcl arbitrary: lt2 p V)
  case Nil
  show ?case by simp
next
  case (Cons ibcd rest)
  define icd where "icd = classDef ibcd"
  define lt1 where "lt1 = fst (convertProtectionLevel g lt (prot ibcd))"
  define lt3 where "lt3 = snd (convertProtectionLevel g lt (prot ibcd))"
  define lt2' where "lt2' = (if lt2 = -1 \<and> lt3 \<noteq> -1 then lt3 else lt2)"
  define a where "a = addInheritedMembers g inh icd lt lt1 lt2' title add []"
  have pre: "\<And>q. addInheritedMembers g inh icd lt lt1 lt2' title add q = q @ a"
    unfolding a_def by (rule addInheritedMembers_prefix)
  have eq0: "\<And>q. findInheritedMembers_loop n g inh (ibcd # rest) lt lt2 title add (q, V) =
      (if isLinkable (classAt g icd) then
         (if icd \<notin> V then
            (if lt1 \<noteq> -1 then
               (case findInheritedMembers n g inh icd lt1 lt2' title add
                       (addInheritedMembers g inh icd lt lt1 lt2' title add q, insert icd V) of
                  None \<Rightarrow> None
                | Some st1 \<Rightarrow> findInheritedMembers_loop n g inh rest lt lt2' title add st1)
             else findInheritedMembers_loop n g inh rest lt lt2' title add (q, insert icd V))
          else findInheritedMembers_loop n g inh rest lt lt2' title add (q, V))
       else findInheritedMembers_loop n g inh rest lt lt2 title add (q, V))"
    unfolding icd_def lt1_def lt3_def lt2'_def by (simp add: Let_def)
  have eq: "\<And>q. findInheritedMembers_loop n g inh (ibcd # rest) lt lt2 title add (q, V) =
      (if isLinkable (classAt g icd) then
         (if icd \<notin> V then
            (if lt1 \<noteq> -1 then
               (case findInheritedMembers n g inh icd lt1 lt2' title add (q @ a, insert icd V) of
                  None \<Rightarrow> None
                | Some st1 \<Rightarrow> findInheritedMembers_loop n g inh rest lt lt2' title add st1)
             else findInheritedMembers_loop n g inh rest lt lt2' title add (q, insert icd V))
          else findInheritedMembers_loop n g inh rest lt lt2' title add (q, V))
       else findInheritedMembers_loop n g inh rest lt lt2 title add (q, V))"
    unfolding eq0 pre by (rule refl)
  show ?case
  proof (cases "isLinkable (classAt g icd) \<and> icd \<notin> V \<and> lt1 \<noteq> -1")
    case False
    then show ?thesis
      unfolding eq[of p] eq[of "[]"]
      using Cons.IH[of lt2 p V] Cons.IH[of lt2' p V] Cons.IH[of lt2' p "insert icd V"]
      by auto
  next
    case True
    show ?thesis
    proof (cases "findInheritedMembers n g inh icd lt1 lt2' title add ([], insert icd V)")
      case None
      then have "findInheritedMembers n g inh icd lt1 lt2' title add (p @ a, insert icd V) = None"
        and "findInheritedMembers n g inh icd lt1 lt2' title add ([] @ a, insert icd V) = None"
        using P[of icd lt1 lt2' "p @ a" "insert icd V"] P[of icd lt1 lt2' "[] @ a" "insert icd V"]
        by simp_all
      with True show ?thesis unfolding eq[of p] eq[of "[]"] by simp
    next
      case (Some r)
      obtain x V2 where r: "r = (x, V2)" by (cases r)
      have l: "findInheritedMembers n g inh icd lt1 lt2' title add (p @ a, insert icd V)
               = Some ((p @ a) @ x, V2)"
        using P[of icd lt1 lt2' "p @ a" "insert icd V"] Some r by simp
      have m: "findInheritedMembers n g inh icd lt1 lt2' title add ([] @ a, insert icd V)
               = Some (a @ x, V2)"
        using P[of icd lt1 lt2' "[] @ a" "insert icd V"] Some r by simp
      have "findInheritedMembers_loop n g inh rest lt lt2' title add ((p @ a) @ x, V2) =
          map_option (\<lambda>r. (((p @ a) @ x) @ fst r, snd r))
            (findInheritedMembers_loop n g inh rest lt lt2' title add ([], V2))"
        by (rule Cons.IH)
      moreover have "findInheritedMembers_loop n g inh rest lt lt2' title add (a @ x, V2) =
          map_option (\<lambda>r. ((a @ x) @ fst r, snd r))
            (findInheritedMembers_loop n g inh rest lt lt2' title add ([], V2))"
        by (rule Cons.IH)
      ultimately show ?thesis
        unfolding eq[of p] eq[of "[]"] using True l m
        by (simp add: option.map_comp comp_def)
    qed
  qed
qed

lemma findInheritedMembers_prefix:
  "findInheritedMembers n g inh cd lt lt2 title add (p, V) =
     map_option (\<lambda>r. (p @ fst r, snd r))
       (findInheritedMembers n g inh cd lt lt2 title add ([], V))"
proof (induction n arbitrary: cd lt lt2 p V)
  case 0
  show ?case by simp
next
  case (Suc n)
  show ?case
    using findInheritedMembers_loop_prefix[of n g inh title add "baseClasses (classAt g cd)" lt lt2 p V, OF Suc.IH]
    by simp
qed

lemma distinct_classes_one_entry:
  assumes d: "distinct (map m_class new)"
    and i: "i < length new" and j: "j < length new"
    and c: "m_class (new ! i) = m_class (new ! j)"
  shows "i = j"
proof -
  have "map m_class new ! i = map m_class new ! j" using i j c by simp
  moreover have "i < length (map m_class new)" "j < length (map m_class new)" using i j by simp_all
  ultimately show ?thesis using nth_eq_iff_index_eq[OF d] by blast
qed

lemma cpp_classes_simps:
  "baseClasses (classAt (cpp_classes bs ss ls) c) =
     map (\<lambda>b. \<lparr> classDef = b, prot = Public \<rparr>) (bs c)"
  "subClasses (classAt (cpp_classes bs ss ls) c) =
     map (\<lambda>b. \<lparr> classDef = b, prot = Public \<rparr>) (ss c)"
  "isLinkable (classAt (cpp_classes bs ss ls) c)"
  "isVisibleInHierarchy (classAt (cpp_classes bs ss ls) c)"
  "getLanguage (classAt (cpp_classes bs ss ls) c) = SrcLangExt_Cpp"
  "getMemberList (classAt (cpp_classes bs ss ls) c) lt =
     (if ls c lt = [] then None
      else Some \<lparr> listType = lt, ml_members = ls c lt, getMemberGroupList = [] \<rparr>)"
  "getMemberGroups (classAt (cpp_classes bs ss ls) c) = []"
  "countMembersIncludingGrouped (classAt (cpp_classes bs ss ls) c) lt inh add =
     int (length (ls c lt))"
  "isBriefSectionVisible (memberAt (cpp_classes bs ss ls) m)"
  "\<not> isReimplementedBy (memberAt (cpp_classes bs ss ls) m) c"
  "convertProtectionLevel (cpp_classes bs ss ls) lt pr = (lt, -1)"
  "hasVisibleRoot (cpp_classes bs ss ls) bcl = (bcl \<noteq> [])"
  "classHasVisibleChildren (cpp_classes bs ss ls) c = (ss c \<noteq> [])"
  by (simp_all add: cpp_classes_def)

lemma cpp_classes_combinedList:
  "combinedList (cpp_classes bs ss ls) inh c lt lt1 lt2 =
     ls c lt1 @ (if lt2 \<noteq> -1 then ls c lt2 else [])"
  by (simp add: combinedList_def addMemberListIncludingGrouped_def addMemberGroupsOfClass_def
      Private_addMemberList_def cpp_classes_simps Let_def)

lemma distinct_concat_entries:
  "distinct (map k new) \<Longrightarrow>
   \<forall>e\<in>set new. distinct (f e) \<Longrightarrow>
   \<forall>e\<in>set new. \<forall>e'\<in>set new. set (f e) \<inter> set (f e') \<noteq> {} \<longrightarrow> k e = k e' \<Longrightarrow>
   distinct (concat (map f new))"
proof (induction new)
  case Nil
  show ?case by simp
next
  case (Cons e rest)
  have p1: "distinct (map k rest)" using Cons.prems(1) by simp
  have p2: "\<forall>e\<in>set rest. distinct (f e)" using Cons.prems(2) by simp
  have p3: "\<forall>e\<in>set rest. \<forall>e'\<in>set rest. set (f e) \<inter> set (f e') \<noteq> {} \<longrightarrow> k e = k e'"
    using Cons.prems(3) by (meson list.set_intros(2))
  have r: "distinct (concat (map f rest))"
    by (rule Cons.IH[OF p1 p2 p3])
  have d: "distinct (f e)" using Cons.prems(2) by simp
  have notin: "k e \<notin> k ` set rest" using Cons.prems(1) by simp
  have dis: "\<And>e'. e' \<in> set rest \<Longrightarrow> set (f e) \<inter> set (f e') = {}"
  proof (rule ccontr)
    fix e' assume e': "e' \<in> set rest" and ne: "set (f e) \<inter> set (f e') \<noteq> {}"
    have "e \<in> set (e # rest)" "e' \<in> set (e # rest)" using e' by simp_all
    with Cons.prems(3) ne have "k e = k e'" by blast
    with e' notin show False by blast
  qed
  have "set (f e) \<inter> set (concat (map f rest)) = {}"
    using dis by auto
  with r d show ?case by simp
qed

text \<open>
  C2 fails where a base class names a member twice in what it contributes. In the diamond
  with the member group, \<open>A\<close> is reached over \<open>B\<close> and over \<open>C\<close> and gives one
  entry, but the entry holds member 10 twice, once from the list of type 1 and once from the
  member group: \<open>addInheritedMembers\<close> appends the lists and the groups one after the
  other as they are.
\<close>

theorem addMemberList_member_twice_counterexample:
  "addMemberList 5 diamond_grouped 3 1 ''T'' False [] =
     Some [\<lparr> m_class = 0,
              m_memberList = \<lparr> listType = 1, ml_members = [10, 10], getMemberGroupList = [] \<rparr>,
              m_title = ''T'' \<rparr>] \<and>
   \<not> distinct (concat (map (\<lambda>e. ml_members (m_memberList e))
                   (the (addMemberList 5 diamond_grouped 3 1 ''T'' False []))))"
proof -
  have c: "\<And>c. c \<noteq> 0 \<Longrightarrow> classAt diamond_grouped c = classAt diamond c"
    by (simp add: diamond_grouped_def)
  have c0: "baseClasses (classAt diamond_grouped 0) = []"
      "isLinkable (classAt diamond_grouped 0)"
      "countMembersIncludingGrouped (classAt diamond_grouped 0) 1 3 False = 1"
      "convertProtectionLevel diamond_grouped 1 Public = (1, -1)"
    by (simp_all add: diamond_grouped_def diamond_def cpp_classes_simps diamond_bases_def
        diamond_lists_def)
  have f5: "(5::nat) = Suc (Suc (Suc (Suc (Suc 0))))" by simp
  have cl: "combinedList diamond_grouped 3 0 1 1 (-1) = [10, 10]"
    by (simp add: combinedList_def addMemberListIncludingGrouped_def addMemberGroupsOfClass_def
        Private_addMemberList_def diamond_grouped_def diamond_def cpp_classes_def
        diamond_lists_def Let_def)
  have val: "addMemberList 5 diamond_grouped 3 1 ''T'' False [] =
     Some [\<lparr> m_class = 0,
              m_memberList = \<lparr> listType = 1, ml_members = [10, 10], getMemberGroupList = [] \<rparr>,
              m_title = ''T'' \<rparr>]"
    by (simp add: addMemberList_def addInheritedMembers_def c c0 cl diamond_def
        cpp_classes_simps diamond_bases_def diamond_lists_def Let_def f5)
  show ?thesis unfolding val by simp
qed

text \<open>
  C2, amended. One call of \<open>addMemberList\<close> starts from an empty visited set: what it
  appends does not depend on the entries that earlier calls (for other categories) have put
  into the list. Whenever the classes reachable over base-class edges are finitely many, the
  call returns, and among the entries it appends no two belong to the same base class,
  however many inheritance paths lead to that class; the members of an entry are the combined
  list of its class, taken once and as \<open>addInheritedMembers\<close> concatenates it. When no
  member belongs to the combined lists of two different classes, a member occurs in at most
  one appended entry; when moreover no appended entry names a member twice in its own
  combined list, no member is duplicated in the whole result.
\<close>

theorem addMemberList_visits_once:
  assumes "finite U"
    and "\<forall>c\<in>U. classDef ` set (baseClasses (classAt g c)) \<subseteq> U"
    and "cd \<in> U"
    and "card U < fuel"
  shows "\<exists>new.
     addMemberList fuel g cd lt title additionalList p = Some (p @ new) \<and>
     addMemberList fuel g cd lt title additionalList [] = Some new \<and>
     distinct (map m_class new) \<and>
     (\<forall>e\<in>set new. \<exists>lt' lt1 lt2.
        ml_members (m_memberList e) = combinedList g cd (m_class e) lt' lt1 lt2) \<and>
     ((\<forall>c c' la la1 la2 lb lb1 lb2.
         set (combinedList g cd c la la1 la2) \<inter> set (combinedList g cd c' lb lb1 lb2) \<noteq> {}
           \<longrightarrow> c = c') \<longrightarrow>
      (\<forall>i<length new. \<forall>j<length new. \<forall>m.
         m \<in> set (ml_members (m_memberList (new ! i))) \<and>
         m \<in> set (ml_members (m_memberList (new ! j))) \<longrightarrow> i = j) \<and>
      ((\<forall>e\<in>set new. distinct (ml_members (m_memberList e))) \<longrightarrow>
       distinct (concat (map (\<lambda>e. ml_members (m_memberList e)) new))))"
proof (cases "(additionalList \<and> \<not> 0 < countMembersIncludingGrouped (classAt g cd) lt cd False) \<or>
              (\<not> additionalList \<and> 0 < countMembersIncludingGrouped (classAt g cd) lt cd False)")
  case False
  then have "addMemberList fuel g cd lt title additionalList p = Some (p @ [])"
    and "addMemberList fuel g cd lt title additionalList [] = Some []"
    by (auto simp: addMemberList_def Let_def)
  then show ?thesis by (intro exI[of _ "[]"]) simp
next
  case True
  have "card (U - snd ([] :: InheritedMemberInfo list, {} :: ClassDefPtr set)) < fuel"
    using assms(4) by simp
  from findInheritedMembers_total[OF assms(1,2,3) this]
  obtain st' where r: "findInheritedMembers fuel g cd cd lt (-1) title additionalList ([], {}) = Some st'"
    by blast
  define new where "new = fst st'"
  have e: "emits g cd ([], {}) st'" by (rule findInheritedMembers_emits[OF r])
  then have d: "distinct (map m_class new)"
    and k: "\<forall>e\<in>set new. \<exists>lt' lt1 lt2.
        ml_members (m_memberList e) = combinedList g cd (m_class e) lt' lt1 lt2"
    unfolding emits_def new_def by auto
  have a: "addMemberList fuel g cd lt title additionalList p = Some (p @ new)"
    using True r findInheritedMembers_prefix[of fuel g cd cd lt "-1" title additionalList p "{}"]
    by (simp add: addMemberList_def Let_def new_def)
  have b: "addMemberList fuel g cd lt title additionalList [] = Some new"
    using True r by (simp add: addMemberList_def Let_def new_def)
  have m: "(\<forall>c c' la la1 la2 lb lb1 lb2.
         set (combinedList g cd c la la1 la2) \<inter> set (combinedList g cd c' lb lb1 lb2) \<noteq> {}
           \<longrightarrow> c = c') \<longrightarrow>
      (\<forall>i<length new. \<forall>j<length new. \<forall>m.
         m \<in> set (ml_members (m_memberList (new ! i))) \<and>
         m \<in> set (ml_members (m_memberList (new ! j))) \<longrightarrow> i = j) \<and>
      ((\<forall>e\<in>set new. distinct (ml_members (m_memberList e))) \<longrightarrow>
       distinct (concat (map (\<lambda>e. ml_members (m_memberList e)) new)))"
  proof
    assume H: "\<forall>c c' la la1 la2 lb lb1 lb2.
         set (combinedList g cd c la la1 la2) \<inter> set (combinedList g cd c' lb lb1 lb2) \<noteq> {}
           \<longrightarrow> c = c'"
    have same: "\<And>e e'. e \<in> set new \<Longrightarrow> e' \<in> set new \<Longrightarrow>
        set (ml_members (m_memberList e)) \<inter> set (ml_members (m_memberList e')) \<noteq> {} \<Longrightarrow>
        m_class e = m_class e'"
    proof -
      fix e e'
      assume e: "e \<in> set new" and e': "e' \<in> set new"
        and ne: "set (ml_members (m_memberList e)) \<inter> set (ml_members (m_memberList e')) \<noteq> {}"
      from k e obtain la la1 la2 where
        ci: "ml_members (m_memberList e) = combinedList g cd (m_class e) la la1 la2"
        by blast
      from k e' obtain lb lb1 lb2 where
        cj: "ml_members (m_memberList e') = combinedList g cd (m_class e') lb lb1 lb2"
        by blast
      from ne have "set (combinedList g cd (m_class e) la la1 la2) \<inter>
          set (combinedList g cd (m_class e') lb lb1 lb2) \<noteq> {}"
        unfolding ci cj .
      with H show "m_class e = m_class e'" by blast
    qed
    have one: "\<forall>i<length new. \<forall>j<length new. \<forall>m.
         m \<in> set (ml_members (m_memberList (new ! i))) \<and>
         m \<in> set (ml_members (m_memberList (new ! j))) \<longrightarrow> i = j"
    proof (intro allI impI)
      fix i j m
      assume i: "i < length new" and j: "j < length new"
        and mm: "m \<in> set (ml_members (m_memberList (new ! i))) \<and>
                 m \<in> set (ml_members (m_memberList (new ! j)))"
      have "set (ml_members (m_memberList (new ! i))) \<inter>
            set (ml_members (m_memberList (new ! j))) \<noteq> {}"
        using mm by auto
      with i j have "m_class (new ! i) = m_class (new ! j)" by (intro same) simp_all
      then show "i = j" by (rule distinct_classes_one_entry[OF d i j])
    qed
    have all: "(\<forall>e\<in>set new. distinct (ml_members (m_memberList e))) \<longrightarrow>
       distinct (concat (map (\<lambda>e. ml_members (m_memberList e)) new))"
    proof
      assume dd: "\<forall>e\<in>set new. distinct (ml_members (m_memberList e))"
      have "\<forall>e\<in>set new. \<forall>e'\<in>set new.
          set (ml_members (m_memberList e)) \<inter> set (ml_members (m_memberList e')) \<noteq> {}
            \<longrightarrow> m_class e = m_class e'"
        using same by blast
      with d dd show "distinct (concat (map (\<lambda>e. ml_members (m_memberList e)) new))"
        by (rule distinct_concat_entries[where k = m_class])
    qed
    from one all show "(\<forall>i<length new. \<forall>j<length new. \<forall>m.
         m \<in> set (ml_members (m_memberList (new ! i))) \<and>
         m \<in> set (ml_members (m_memberList (new ! j))) \<longrightarrow> i = j) \<and>
      ((\<forall>e\<in>set new. distinct (ml_members (m_memberList e))) \<longrightarrow>
       distinct (concat (map (\<lambda>e. ml_members (m_memberList e)) new)))"
      by (rule conjI)
  qed
  from a b d k m show ?thesis by blast
qed

lemma diamond_members_one_class:
  "set (combinedList diamond inh c la la1 la2) \<inter> set (combinedList diamond inh c' lb lb1 lb2) \<noteq> {}
     \<Longrightarrow> c = c'"
  by (auto simp: diamond_def cpp_classes_combinedList diamond_lists_def split: if_splits)

text \<open>
  A witness of the amended C2 in the diamond: the inherited members of \<open>D\<close> in the list
  of type 1. The class \<open>A\<close> is reached over \<open>B\<close> and over \<open>C\<close>; the call returns
  the one entry of \<open>A\<close> with the member 10, and it appends the same entry to a list that
  already holds an entry of another category. No member belongs to two classes and the entry
  names no member twice, so no member is duplicated in the result.
\<close>

theorem addMemberList_visits_once_witness:
  "finite {0, 1, 2, 3 :: nat} \<and> 3 \<in> {0, 1, 2, 3 :: nat} \<and> card {0, 1, 2, 3 :: nat} < 5 \<and>
   list_all (\<lambda>c. classDef ` set (baseClasses (classAt diamond c)) \<subseteq> {0, 1, 2, 3}) [0, 1, 2, 3] \<and>
   (\<exists>new. addMemberList 5 diamond 3 1 ''T'' False
             [\<lparr> m_class = 7, m_memberList = \<lparr> listType = 2, ml_members = [11],
                                               getMemberGroupList = [] \<rparr>, m_title = ''S'' \<rparr>] =
           Some ([\<lparr> m_class = 7, m_memberList = \<lparr> listType = 2, ml_members = [11],
                                               getMemberGroupList = [] \<rparr>, m_title = ''S'' \<rparr>] @ new) \<and>
         addMemberList 5 diamond 3 1 ''T'' False [] = Some new \<and>
         distinct (map m_class new) \<and>
         (\<forall>i<length new. \<forall>j<length new. \<forall>m.
            m \<in> set (ml_members (m_memberList (new ! i))) \<and>
            m \<in> set (ml_members (m_memberList (new ! j))) \<longrightarrow> i = j) \<and>
         list_all (\<lambda>e. distinct (ml_members (m_memberList e))) new \<and>
         distinct (concat (map (\<lambda>e. ml_members (m_memberList e)) new))) \<and>
   addMemberList 5 diamond 3 1 ''T'' False [] =
     Some [\<lparr> m_class = 0,
              m_memberList = \<lparr> listType = 1, ml_members = [10], getMemberGroupList = [] \<rparr>,
              m_title = ''T'' \<rparr>]"
proof -
  have fin: "finite {0, 1, 2, 3 :: nat}" by simp
  have closed: "\<forall>c\<in>{0, 1, 2, 3 :: nat}.
      classDef ` set (baseClasses (classAt diamond c)) \<subseteq> {0, 1, 2, 3}"
    by (simp add: diamond_def cpp_classes_simps diamond_bases_def)
  have inU: "3 \<in> {0, 1, 2, 3 :: nat}" by simp
  have fuel: "card {0, 1, 2, 3 :: nat} < 5" by simp
  have one: "\<forall>c c' la la1 la2 lb lb1 lb2.
         set (combinedList diamond 3 c la la1 la2) \<inter> set (combinedList diamond 3 c' lb lb1 lb2) \<noteq> {}
           \<longrightarrow> c = c'"
    using diamond_members_one_class by blast
  from addMemberList_visits_once [OF fin closed inU fuel, of 1 "''T''" False
      "[\<lparr> m_class = 7, m_memberList = \<lparr> listType = 2, ml_members = [11],
                                        getMemberGroupList = [] \<rparr>, m_title = ''S'' \<rparr>]"] one
  obtain new where
    a: "addMemberList 5 diamond 3 1 ''T'' False
             [\<lparr> m_class = 7, m_memberList = \<lparr> listType = 2, ml_members = [11],
                                               getMemberGroupList = [] \<rparr>, m_title = ''S'' \<rparr>] =
           Some ([\<lparr> m_class = 7, m_memberList = \<lparr> listType = 2, ml_members = [11],
                                               getMemberGroupList = [] \<rparr>, m_title = ''S'' \<rparr>] @ new)"
    and b: "addMemberList 5 diamond 3 1 ''T'' False [] = Some new"
    and d: "distinct (map m_class new)"
    and o: "\<forall>i<length new. \<forall>j<length new. \<forall>m.
            m \<in> set (ml_members (m_memberList (new ! i))) \<and>
            m \<in> set (ml_members (m_memberList (new ! j))) \<longrightarrow> i = j"
    and q: "(\<forall>e\<in>set new. distinct (ml_members (m_memberList e))) \<longrightarrow>
            distinct (concat (map (\<lambda>e. ml_members (m_memberList e)) new))"
    by blast
  have cl: "list_all (\<lambda>c. classDef ` set (baseClasses (classAt diamond c)) \<subseteq> {0, 1, 2, 3})
              [0, 1, 2, 3]"
    by (simp add: diamond_def cpp_classes_simps diamond_bases_def)
  have val: "addMemberList 5 diamond 3 1 ''T'' False [] =
     Some [\<lparr> m_class = 0,
              m_memberList = \<lparr> listType = 1, ml_members = [10], getMemberGroupList = [] \<rparr>,
              m_title = ''T'' \<rparr>]"
    by (simp add: addMemberList_def addInheritedMembers_def diamond_def cpp_classes_combinedList cpp_classes_simps
        diamond_bases_def diamond_lists_def Let_def eval_nat_numeral)
  from b val have n: "new =
     [\<lparr> m_class = 0,
        m_memberList = \<lparr> listType = 1, ml_members = [10], getMemberGroupList = [] \<rparr>,
        m_title = ''T'' \<rparr>]"
    by simp
  have dl: "list_all (\<lambda>e. distinct (ml_members (m_memberList e))) new"
    unfolding n by simp
  then have "\<forall>e\<in>set new. distinct (ml_members (m_memberList e))"
    by (simp add: list_all_iff)
  with q have all: "distinct (concat (map (\<lambda>e. ml_members (m_memberList e)) new))"
    by blast
  from a b d o dl all
  have ex: "\<exists>new. addMemberList 5 diamond 3 1 ''T'' False
             [\<lparr> m_class = 7, m_memberList = \<lparr> listType = 2, ml_members = [11],
                                               getMemberGroupList = [] \<rparr>, m_title = ''S'' \<rparr>] =
           Some ([\<lparr> m_class = 7, m_memberList = \<lparr> listType = 2, ml_members = [11],
                                               getMemberGroupList = [] \<rparr>, m_title = ''S'' \<rparr>] @ new) \<and>
         addMemberList 5 diamond 3 1 ''T'' False [] = Some new \<and>
         distinct (map m_class new) \<and>
         (\<forall>i<length new. \<forall>j<length new. \<forall>m.
            m \<in> set (ml_members (m_memberList (new ! i))) \<and>
            m \<in> set (ml_members (m_memberList (new ! j))) \<longrightarrow> i = j) \<and>
         list_all (\<lambda>e. distinct (ml_members (m_memberList e))) new \<and>
         distinct (concat (map (\<lambda>e. ml_members (m_memberList e)) new))"
    by blast
  from fin inU fuel cl ex val show ?thesis by blast
qed

text \<open>
  C1, amended. Which of the two lists receives the inherited members: when the class has members
  of the category itself (\<open>countMembersIncludingGrouped\<close> is positive), only the call with
  \<open>additionalList = false\<close> walks the base classes and the call for the additional list
  leaves the list as it is; when the class has none, only the call with
  \<open>additionalList = true\<close> walks the base classes.
\<close>

theorem addMemberList_bucket:
  "(0 < countMembersIncludingGrouped (classAt g cd) lt cd False \<longrightarrow>
      addMemberList fuel g cd lt title True p = Some p \<and>
      addMemberList fuel g cd lt title False p =
        map_option fst (findInheritedMembers fuel g cd cd lt (-1) title False (p, {}))) \<and>
   (countMembersIncludingGrouped (classAt g cd) lt cd False \<le> 0 \<longrightarrow>
      addMemberList fuel g cd lt title False p = Some p \<and>
      addMemberList fuel g cd lt title True p =
        map_option fst (findInheritedMembers fuel g cd cd lt (-1) title True (p, {})))"
  by (simp add: addMemberList_def Let_def)

text \<open>
  C1 as stated fails in the diamond. \<open>D\<close> has a member of its own in the list of type 1,
  and the call for the additional list adds nothing there, while the call with
  \<open>additionalList = false\<close> adds the entry of \<open>A\<close>. \<open>D\<close> has no member in the list of
  type 2, and there it is the call for the additional list that adds the entry of \<open>A\<close>.
\<close>

theorem addMemberList_bucket_counterexample:
  "0 < countMembersIncludingGrouped (classAt diamond 3) 1 3 False \<and>
   addMemberList 3 diamond 3 1 ''T'' True [] = Some [] \<and>
   addMemberList 3 diamond 3 1 ''T'' False [] =
     Some [\<lparr> m_class = 0,
              m_memberList = \<lparr> listType = 1, ml_members = [10], getMemberGroupList = [] \<rparr>,
              m_title = ''T'' \<rparr>] \<and>
   countMembersIncludingGrouped (classAt diamond 3) 2 3 False = 0 \<and>
   addMemberList 3 diamond 3 2 ''T'' False [] = Some [] \<and>
   addMemberList 3 diamond 3 2 ''T'' True [] =
     Some [\<lparr> m_class = 0,
              m_memberList = \<lparr> listType = 2, ml_members = [11], getMemberGroupList = [] \<rparr>,
              m_title = ''T'' \<rparr>]"
  by (simp add: addMemberList_def addInheritedMembers_def diamond_def cpp_classes_combinedList cpp_classes_simps
      diamond_bases_def diamond_lists_def Let_def numeral_3_eq_3)

text \<open>A witness of the amended C1 in the diamond, for the lists of type 1 and 2.\<close>

theorem addMemberList_bucket_witness:
  "0 < countMembersIncludingGrouped (classAt diamond 3) 1 3 False \<and>
   addMemberList 3 diamond 3 1 ''T'' True [] = Some [] \<and>
   countMembersIncludingGrouped (classAt diamond 3) 2 3 False \<le> 0 \<and>
   addMemberList 3 diamond 3 2 ''T'' False [] = Some []"
  using addMemberList_bucket [of diamond 3 1 3 "''T''" "[]"]
    addMemberList_bucket [of diamond 3 2 3 "''T''" "[]"]
  by (simp add: diamond_def cpp_classes_simps diamond_lists_def)

section \<open>The class hierarchy tree is built in finitely many steps\<close>

lemma addDerivedClasses_total:
  assumes fin: "finite U"
    and P: "\<And>cd index level hideSuper V. cd \<in> U \<Longrightarrow> card (U - V) < n \<Longrightarrow>
              \<exists>r. NestingNodeContext_alloc n g cd index level hideSuper V = Some r \<and> V \<subseteq> snd r"
  shows "classDef ` set bcl \<subseteq> U \<Longrightarrow> card (U - snd st) < n \<Longrightarrow>
         \<exists>r. addDerivedClasses n g bcl hideSuper level st = Some r \<and> snd st \<subseteq> snd r"
proof (induction bcl arbitrary: st)
  case Nil
  then show ?case by simp
next
  case (Cons bcd rest)
  define cd where "cd = classDef bcd"
  define b where "b = (if getLanguage (classAt g cd) = SrcLangExt_VHDL
                       then hasVisibleRoot g (subClasses (classAt g cd))
                       else hasVisibleRoot g (baseClasses (classAt g cd)))"
  have eq: "addDerivedClasses n g (bcd # rest) hideSuper level st =
      (if getLanguage (classAt g cd) = SrcLangExt_VHDL \<and> vhdlProtection (classAt g cd) \<noteq> ENTITYCLASS
       then addDerivedClasses n g rest hideSuper level st
       else if isVisibleInHierarchy (classAt g cd) \<and> b then
              (case NestingNodeContext_alloc n g cd (snd (fst st)) level hideSuper (snd st) of
                 None \<Rightarrow> None
               | Some r \<Rightarrow>
                   addDerivedClasses n g rest hideSuper level
                     ((fst (fst st) @ [fst r], snd (fst st) + 1), snd r))
            else addDerivedClasses n g rest hideSuper level st)"
    unfolding cd_def b_def by (simp add: Let_def)
  have inU: "cd \<in> U" and restU: "classDef ` set rest \<subseteq> U"
    using Cons.prems(1) by (auto simp: cd_def)
  show ?case
  proof (cases "\<not> (getLanguage (classAt g cd) = SrcLangExt_VHDL \<and>
                     vhdlProtection (classAt g cd) \<noteq> ENTITYCLASS) \<and>
                isVisibleInHierarchy (classAt g cd) \<and> b")
    case False
    with Cons.IH[OF restU Cons.prems(2)] show ?thesis unfolding eq by auto
  next
    case True
    from P[OF inU Cons.prems(2), of "snd (fst st)" level hideSuper]
    obtain r where r: "NestingNodeContext_alloc n g cd (snd (fst st)) level hideSuper (snd st) = Some r"
      and sub: "snd st \<subseteq> snd r" by blast
    let ?st1 = "((fst (fst st) @ [fst r], snd (fst st) + 1), snd r)"
    have "card (U - snd r) \<le> card (U - snd st)" by (rule card_Diff_mono[OF fin sub])
    with Cons.prems(2) have "card (U - snd ?st1) < n" by simp
    from Cons.IH[OF restU this]
    obtain r' where r': "addDerivedClasses n g rest hideSuper level ?st1 = Some r'"
      and sub': "snd ?st1 \<subseteq> snd r'" by blast
    have "snd st \<subseteq> snd r'" using sub sub' by auto
    with True r r' show ?thesis unfolding eq by (intro exI[of _ r']) auto
  qed
qed

lemma NestingNodeContext_alloc_total:
  assumes fin: "finite U"
    and closed: "\<forall>c\<in>U. classDef ` set (subClasses (classAt g c)) \<subseteq> U \<and>
                        classDef ` set (baseClasses (classAt g c)) \<subseteq> U"
  shows "cd \<in> U \<Longrightarrow> card (U - V) < n \<Longrightarrow>
         \<exists>r. NestingNodeContext_alloc n g cd index level hideSuper V = Some r \<and> V \<subseteq> snd r"
proof (induction n arbitrary: cd index level hideSuper V)
  case 0
  then show ?case by simp
next
  case (Suc n)
  show ?case
  proof (cases "cd \<notin> V \<and> \<not> hideSuper \<and> classHasVisibleChildren g cd")
    case False
    then show ?thesis by auto
  next
    case True
    let ?bcl = "if getLanguage (classAt g cd) = SrcLangExt_VHDL
                then baseClasses (classAt g cd) else subClasses (classAt g cd)"
    let ?st = "(([] :: NestingNode list, 0 :: int), insert cd V)"
    have bU: "classDef ` set ?bcl \<subseteq> U" using closed Suc.prems(1) by auto
    have "card (U - insert cd V) < card (U - V)"
      using card_Diff_insert_less[OF fin Suc.prems(1)] True by simp
    with Suc.prems(2) have c: "card (U - snd ?st) < n" by simp
    have "\<exists>r. addDerivedClasses n g ?bcl False (level + 1) ?st = Some r \<and> snd ?st \<subseteq> snd r"
      by (rule addDerivedClasses_total[OF fin _ bU c]) (rule Suc.IH)
    then obtain r where r: "addDerivedClasses n g ?bcl False (level + 1) ?st = Some r"
      and sub: "insert cd V \<subseteq> snd r" by auto
    show ?thesis using True r sub by (simp add: Let_def)
  qed
qed

lemma addClassHierarchy_total:
  assumes fin: "finite U"
    and closed: "\<forall>c\<in>U. classDef ` set (subClasses (classAt g c)) \<subseteq> U \<and>
                        classDef ` set (baseClasses (classAt g c)) \<subseteq> U"
    and fuel: "card U < fuel"
  shows "set cls \<subseteq> U \<Longrightarrow> \<exists>r. addClassHierarchy fuel g cls level st = Some r"
proof (induction cls arbitrary: st)
  case Nil
  show ?case by simp
next
  case (Cons cd rest)
  have inU: "cd \<in> U" and restU: "set rest \<subseteq> U" using Cons.prems by auto
  have "card (U - snd st) \<le> card U" by (rule card_mono[OF fin]) blast
  with fuel have c: "card (U - snd st) < fuel" by simp
  from NestingNodeContext_alloc_total[OF fin closed inU c, of "snd (fst st)" level False]
  obtain r where r: "NestingNodeContext_alloc fuel g cd (snd (fst st)) level False (snd st) = Some r"
    by blast
  from Cons.IH[OF restU] r Cons.IH[OF restU, of st]
    Cons.IH[OF restU, of "((fst (fst st) @ [fst r], snd (fst st) + 1), snd r)"]
  show ?case by (auto simp: Let_def)
qed

text \<open>
  C3, amended. The class hierarchy of finitely many classes is built in finitely many steps, whatever
  the inheritance edges are, cycles included: with more fuel than there are classes the
  constructor returns a tree. A class that is already in the visited set, or a node flagged
  hide-superclass, becomes a node without children and the visited set stays as it is. In
  the diamond the tree has the one root \<open>A\<close> with the children \<open>B\<close> and \<open>C\<close>, and
  \<open>D\<close> stands once below \<open>B\<close> and once below \<open>C\<close>.
\<close>

theorem class_hierarchy_terminates:
  "(finite U \<and>
    (\<forall>c\<in>U. classDef ` set (subClasses (classAt g c)) \<subseteq> U \<and>
            classDef ` set (baseClasses (classAt g c)) \<subseteq> U) \<and>
    set classLinkedMap \<subseteq> U \<and> set hiddenClassLinkedMap \<subseteq> U \<and> card U < fuel \<longrightarrow>
      (\<exists>tree. ClassHierarchyContext_new fuel g classLinkedMap hiddenClassLinkedMap = Some tree)) \<and>
   (cd \<in> visitedClasses \<or> hideSuper \<longrightarrow>
      NestingNodeContext_alloc (Suc n) g cd index level hideSuper visitedClasses =
        Some (TemplateStruct \<lparr> m_def = cd, m_index = index, m_level = level \<rparr> (Some []),
              visitedClasses)) \<and>
   ClassHierarchyContext_new 4 diamond [0, 1, 2, 3] [] =
     Some [TemplateStruct \<lparr> m_def = 0, m_index = 0, m_level = 0 \<rparr>
             (Some [TemplateStruct \<lparr> m_def = 1, m_index = 0, m_level = 1 \<rparr>
                      (Some [TemplateStruct \<lparr> m_def = 3, m_index = 0, m_level = 2 \<rparr> (Some [])]),
                    TemplateStruct \<lparr> m_def = 2, m_index = 1, m_level = 1 \<rparr>
                      (Some [TemplateStruct \<lparr> m_def = 3, m_index = 0, m_level = 2 \<rparr> (Some [])])])]"
proof -
  have A: "finite U \<and>
    (\<forall>c\<in>U. classDef ` set (subClasses (classAt g c)) \<subseteq> U \<and>
            classDef ` set (baseClasses (classAt g c)) \<subseteq> U) \<and>
    set classLinkedMap \<subseteq> U \<and> set hiddenClassLinkedMap \<subseteq> U \<and> card U < fuel \<Longrightarrow>
      \<exists>tree. ClassHierarchyContext_new fuel g classLinkedMap hiddenClassLinkedMap = Some tree"
  proof -
    assume h: "finite U \<and>
      (\<forall>c\<in>U. classDef ` set (subClasses (classAt g c)) \<subseteq> U \<and>
              classDef ` set (baseClasses (classAt g c)) \<subseteq> U) \<and>
      set classLinkedMap \<subseteq> U \<and> set hiddenClassLinkedMap \<subseteq> U \<and> card U < fuel"
    then have fin: "finite U"
      and closed: "\<forall>c\<in>U. classDef ` set (subClasses (classAt g c)) \<subseteq> U \<and>
              classDef ` set (baseClasses (classAt g c)) \<subseteq> U"
      and c1: "set classLinkedMap \<subseteq> U" and c2: "set hiddenClassLinkedMap \<subseteq> U"
      and fuel: "card U < fuel" by blast+
    from addClassHierarchy_total[OF fin closed fuel c1, of 0 "(([], 0), {})"]
    obtain st where s1: "addClassHierarchy fuel g classLinkedMap 0 (([], 0), {}) = Some st"
      by blast
    from addClassHierarchy_total[OF fin closed fuel c2, of 0 st]
    obtain st' where s2: "addClassHierarchy fuel g hiddenClassLinkedMap 0 st = Some st'"
      by blast
    show ?thesis using s1 s2 by (simp add: ClassHierarchyContext_new_def)
  qed
  have B: "cd \<in> visitedClasses \<or> hideSuper \<Longrightarrow>
      NestingNodeContext_alloc (Suc n) g cd index level hideSuper visitedClasses =
        Some (TemplateStruct \<lparr> m_def = cd, m_index = index, m_level = level \<rparr> (Some []),
              visitedClasses)"
    by auto
  have C: "ClassHierarchyContext_new 4 diamond [0, 1, 2, 3] [] =
     Some [TemplateStruct \<lparr> m_def = 0, m_index = 0, m_level = 0 \<rparr>
             (Some [TemplateStruct \<lparr> m_def = 1, m_index = 0, m_level = 1 \<rparr>
                      (Some [TemplateStruct \<lparr> m_def = 3, m_index = 0, m_level = 2 \<rparr> (Some [])]),
                    TemplateStruct \<lparr> m_def = 2, m_index = 1, m_level = 1 \<rparr>
                      (Some [TemplateStruct \<lparr> m_def = 3, m_index = 0, m_level = 2 \<rparr> (Some [])])])]"
    by (simp add: ClassHierarchyContext_new_def diamond_def cpp_classes_simps diamond_bases_def diamond_subs_def
        Let_def eval_nat_numeral)
  from A B C show ?thesis by blast
qed

text \<open>
  C3 as stated fails in the diamond: the tree runs from the base class down to the derived
  classes, so \<open>A\<close> is the root and stands neither below \<open>B\<close> nor below \<open>C\<close>; the
  class below each of them is \<open>D\<close>. The visited set is one set for the whole tree and
  not one per branch: when \<open>D\<close> has the subclass \<open>E\<close>, it is expanded below \<open>B\<close>,
  and below \<open>C\<close> it has no children although it is not above itself on that branch.
\<close>

theorem class_hierarchy_diamond_counterexample:
  "ClassHierarchyContext_new 4 diamond [0, 1, 2, 3] [] =
     Some [TemplateStruct \<lparr> m_def = 0, m_index = 0, m_level = 0 \<rparr>
             (Some [TemplateStruct \<lparr> m_def = 1, m_index = 0, m_level = 1 \<rparr>
                      (Some [TemplateStruct \<lparr> m_def = 3, m_index = 0, m_level = 2 \<rparr> (Some [])]),
                    TemplateStruct \<lparr> m_def = 2, m_index = 1, m_level = 1 \<rparr>
                      (Some [TemplateStruct \<lparr> m_def = 3, m_index = 0, m_level = 2 \<rparr> (Some [])])])] \<and>
   defs_of (TemplateStruct \<lparr> m_def = 1, m_index = 0, m_level = 1 \<rparr>
              (Some [TemplateStruct \<lparr> m_def = 3, m_index = 0, m_level = 2 \<rparr> (Some [])])) = [1, 3] \<and>
   defs_of (TemplateStruct \<lparr> m_def = 2, m_index = 1, m_level = 1 \<rparr>
              (Some [TemplateStruct \<lparr> m_def = 3, m_index = 0, m_level = 2 \<rparr> (Some [])])) = [2, 3] \<and>
   0 \<notin> set [1, 3 :: nat] \<and> 0 \<notin> set [2, 3 :: nat] \<and>
   ClassHierarchyContext_new 5 diamond_E [0, 1, 2, 3, 4] [] =
     Some [TemplateStruct \<lparr> m_def = 0, m_index = 0, m_level = 0 \<rparr>
             (Some [TemplateStruct \<lparr> m_def = 1, m_index = 0, m_level = 1 \<rparr>
                      (Some [TemplateStruct \<lparr> m_def = 3, m_index = 0, m_level = 2 \<rparr>
                         (Some [TemplateStruct \<lparr> m_def = 4, m_index = 0, m_level = 3 \<rparr>
                                  (Some [])])]),
                    TemplateStruct \<lparr> m_def = 2, m_index = 1, m_level = 1 \<rparr>
                      (Some [TemplateStruct \<lparr> m_def = 3, m_index = 0, m_level = 2 \<rparr> (Some [])])])]"
  by (simp add: ClassHierarchyContext_new_def diamond_def diamond_E_def cpp_classes_simps
      diamond_bases_def diamond_subs_def diamond_E_bases_def diamond_E_subs_def
      Let_def eval_nat_numeral)

text \<open>
  A witness of the amended C3 in the three classes with a cycle: the constructor returns,
  and the tree is the chain 0, 1, 2, 1, whose last node has no children because class 1 is
  in the visited set by then.
\<close>

theorem class_hierarchy_terminates_witness:
  "finite {0, 1, 2 :: nat} \<and> set [0, 1, 2 :: nat] \<subseteq> {0, 1, 2} \<and> card {0, 1, 2 :: nat} < 4 \<and>
   list_all (\<lambda>c. classDef ` set (subClasses (classAt cyclic c)) \<subseteq> {0, 1, 2} \<and>
                  classDef ` set (baseClasses (classAt cyclic c)) \<subseteq> {0, 1, 2}) [0, 1, 2] \<and>
   (\<exists>tree. ClassHierarchyContext_new 4 cyclic [0, 1, 2] [] = Some tree) \<and>
   ClassHierarchyContext_new 4 cyclic [0, 1, 2] [] =
     Some [TemplateStruct \<lparr> m_def = 0, m_index = 0, m_level = 0 \<rparr>
             (Some [TemplateStruct \<lparr> m_def = 1, m_index = 0, m_level = 1 \<rparr>
                (Some [TemplateStruct \<lparr> m_def = 2, m_index = 0, m_level = 2 \<rparr>
                   (Some [TemplateStruct \<lparr> m_def = 1, m_index = 0, m_level = 3 \<rparr> (Some [])])])])] \<and>
   (1::nat) \<in> {0, 1} \<and>
   NestingNodeContext_alloc (Suc 0) cyclic 1 0 3 False {0, 1} =
     Some (TemplateStruct \<lparr> m_def = 1, m_index = 0, m_level = 3 \<rparr> (Some []), {0, 1})"
proof -
  have hyp: "finite {0, 1, 2 :: nat} \<and>
      (\<forall>c\<in>{0, 1, 2 :: nat}. classDef ` set (subClasses (classAt cyclic c)) \<subseteq> {0, 1, 2} \<and>
            classDef ` set (baseClasses (classAt cyclic c)) \<subseteq> {0, 1, 2}) \<and>
      set [0, 1, 2 :: nat] \<subseteq> {0, 1, 2} \<and> set ([] :: nat list) \<subseteq> {0, 1, 2} \<and>
      card {0, 1, 2 :: nat} < 4"
    by (simp add: cyclic_def cpp_classes_simps cyclic_bases_def cyclic_subs_def)
  note t = class_hierarchy_terminates [where U = "{0, 1, 2}" and g = cyclic
      and classLinkedMap = "[0, 1, 2]" and hiddenClassLinkedMap = "[]" and fuel = 4
      and cd = 1 and visitedClasses = "{0, 1}" and hideSuper = False and n = 0
      and index = 0 and level = 3]
  from t hyp have ex: "\<exists>tree. ClassHierarchyContext_new 4 cyclic [0, 1, 2] [] = Some tree"
    by blast
  have g: "(1::nat) \<in> {0, 1}" by simp
  from t g have leaf: "NestingNodeContext_alloc (Suc 0) cyclic 1 0 3 False {0, 1} =
     Some (TemplateStruct \<lparr> m_def = 1, m_index = 0, m_level = 3 \<rparr> (Some []), {0, 1})"
    by blast
  have cl: "list_all (\<lambda>c. classDef ` set (subClasses (classAt cyclic c)) \<subseteq> {0, 1, 2} \<and>
                  classDef ` set (baseClasses (classAt cyclic c)) \<subseteq> {0, 1, 2}) [0, 1, 2]"
    by (simp add: cyclic_def cpp_classes_simps cyclic_bases_def cyclic_subs_def)
  have val: "ClassHierarchyContext_new 4 cyclic [0, 1, 2] [] =
     Some [TemplateStruct \<lparr> m_def = 0, m_index = 0, m_level = 0 \<rparr>
             (Some [TemplateStruct \<lparr> m_def = 1, m_index = 0, m_level = 1 \<rparr>
                (Some [TemplateStruct \<lparr> m_def = 2, m_index = 0, m_level = 2 \<rparr>
                   (Some [TemplateStruct \<lparr> m_def = 1, m_index = 0, m_level = 3 \<rparr> (Some [])])])])]"
    by (simp add: ClassHierarchyContext_new_def cyclic_def cpp_classes_simps cyclic_bases_def cyclic_subs_def
        Let_def eval_nat_numeral)
  from hyp ex leaf cl val g show ?thesis by simp
qed

end
